theory Spec2Isabelle
  imports Main "HOL-Library.Word" "HOL-Library.Signed_Division" "HOL-Library.Sublist"
begin

section \<open>Data model of \<open>shot.c\<close>\<close>

text \<open>
  \<open>ShotRegion\<close> is the rectangle the program captures (C fields \<open>x\<close>, \<open>y\<close>, \<open>width\<close>,
  \<open>height\<close>, all \<open>int\<close>); \<open>Monitor\<close> is one enumerated display (C fields \<open>x\<close>, \<open>y\<close>,
  \<open>width\<close>, \<open>height\<close>, \<open>primary\<close>).  The fields carry a prefix here because a record field
  is a global constant.  Coordinates are unbounded integers: signed overflow is undefined
  in C and no property below depends on it.  The type declarations themselves live in
  headers that are not part of \<open>shot.c\<close>; the fields are the ones \<open>shot.c\<close> reads.
\<close>

record ShotRegion =
  reg_x :: int
  reg_y :: int
  reg_width :: int
  reg_height :: int

record Monitor =
  mon_x :: int
  mon_y :: int
  mon_width :: int
  mon_height :: int
  mon_primary :: bool

text \<open>
  The manager owns the array \<open>monitors\<close> of length \<open>monitor_count\<close> (an \<open>unsigned int\<close>).
\<close>

record MonitorManager =
  monitors :: "Monitor list"

definition monitor_count :: "MonitorManager \<Rightarrow> nat" where
  "monitor_count mgr = length (monitors mgr)"

text \<open>\<open>struct ShotOptions\<close>; \<open>output_path\<close> is a possibly null \<open>const char *\<close>.\<close>

record ShotOptions =
  error :: int
  output_path :: "string option"
  region :: ShotRegion

text \<open>
  Calls made to the region-picker collaborators, in program order.  The trace is what makes
  "this resolver was invoked" observable in a pure model.
\<close>

datatype call =
    CallFromAllMonitors
  | CallFromMonitor Monitor
  | CallFromString "string option"
  | CallInteractively ShotRegion ShotRegion
  | CallFromActiveWindow

text \<open>
  The state of \<open>parse_options\<close>: the \<open>options\<close> struct it returns, its local
  \<open>region_result\<close>, what was written to the two output streams, and the call trace.
\<close>

record pstate = ShotOptions +
  region_result :: int
  out_stdout :: "string list"
  out_stderr :: "string list"
  calls :: "call list"

text \<open>A failed \<open>assert\<close> and a null pointer handed to \<open>atoi\<close> end the process abnormally.\<close>

datatype abort = AssertionFailed | NullDereference

section \<open>What \<open>shot.c\<close> takes from outside\<close>

text \<open>
  The error constants of \<open>region_picker/errors.h\<close>, the three resolvers that talk to the
  user or the platform, the indeterminate initial content of the local \<open>working_area\<close>, and
  the capture functions of \<open>grab.h\<close> are parameters: their code is not part of \<open>shot.c\<close>.
  A resolver receives the region it may write to and returns its result code together
  with the region as it left it.
\<close>

record env =
  ERR_CANCELED :: int
  ERR_NOT_IMPLEMENTED :: int
  ERR_INVALID_ARGUMENT :: int
  ERR_OTHER :: int
  update_region_from_string :: "ShotRegion \<Rightarrow> string option \<Rightarrow> int \<times> ShotRegion"
  update_region_interactively :: "ShotRegion \<Rightarrow> ShotRegion \<Rightarrow> int \<times> ShotRegion"
  update_region_from_active_window :: "ShotRegion \<Rightarrow> int \<times> ShotRegion"
  indeterminate_region :: ShotRegion
  grab_screenshot :: "ShotRegion \<Rightarrow> bool"
  bitmap_save_to_png :: "ShotRegion \<Rightarrow> int"

text \<open>
  Modelled from the spec: \<open>update_region_from_monitor\<close> (\<open>region_picker/monitor.c\<close> is
  missing).  Section 4.3: "in-range copies that monitor's rectangle verbatim".
\<close>

definition update_region_from_monitor :: "ShotRegion \<Rightarrow> Monitor \<Rightarrow> int \<times> ShotRegion" where
  "update_region_from_monitor r m =
     (0, r\<lparr>reg_x := mon_x m, reg_y := mon_y m,
           reg_width := mon_width m, reg_height := mon_height m\<rparr>)"

text \<open>
  Modelled from the spec: \<open>update_region_from_all_monitors\<close> (\<open>region_picker/monitor.c\<close> is
  missing).  Section 4.3: the bounding box \<open>x = min(m.x)\<close>, \<open>y = min(m.y)\<close>,
  \<open>width = max(m.x+m.width) - x\<close>, \<open>height = max(m.y+m.height) - y\<close> over all monitors;
  "always succeeds given at least one monitor".  The spec says nothing about an empty
  monitor list; the model reports \<open>ERR_OTHER\<close> there and leaves the region alone
  (\<open>parse_options\<close> asserts a non-empty list before any call).
\<close>

definition desktop_bounds :: "Monitor \<Rightarrow> Monitor list \<Rightarrow> ShotRegion" where
  "desktop_bounds m ms =
     (let x0 = fold (\<lambda>k a. min (mon_x k) a) ms (mon_x m);
          y0 = fold (\<lambda>k a. min (mon_y k) a) ms (mon_y m);
          x1 = fold (\<lambda>k a. max (mon_x k + mon_width k) a) ms (mon_x m + mon_width m);
          y1 = fold (\<lambda>k a. max (mon_y k + mon_height k) a) ms (mon_y m + mon_height m)
      in \<lparr>reg_x = x0, reg_y = y0, reg_width = x1 - x0, reg_height = y1 - y0\<rparr>)"

definition update_region_from_all_monitors ::
  "env \<Rightarrow> ShotRegion \<Rightarrow> MonitorManager \<Rightarrow> int \<times> ShotRegion" where
  "update_region_from_all_monitors env r mgr =
     (case monitors mgr of
        [] \<Rightarrow> (ERR_OTHER env, r)
      | m # ms \<Rightarrow> (0, desktop_bounds m ms))"

section \<open>The C library functions \<open>shot.c\<close> calls\<close>

abbreviation ord :: "char \<Rightarrow> int" where
  "ord \<equiv> of_char"

subsection \<open>\<open>atoi\<close>\<close>

text \<open>
  \<open>atoi\<close> skips white space, reads an optional sign and the decimal digits that follow,
  and ignores the rest.  ISO C leaves a value outside \<open>int\<close> undefined; the model does
  what glibc does (\<open>(int) strtol(s, NULL, 10)\<close>: saturate to \<open>long\<close>, keep the low 32
  bits), so every result is in the range of a 32-bit \<open>int\<close>.
\<close>

definition isspace :: "char \<Rightarrow> bool" where
  "isspace ch = (ch \<in> {CHR '' '', CHR 0x09, CHR 0x0A, CHR 0x0B, CHR 0x0C, CHR 0x0D})"

definition isdigit :: "char \<Rightarrow> bool" where
  "isdigit ch = (ord CHR ''0'' \<le> ord ch \<and> ord ch \<le> ord CHR ''9'')"

fun digits_value :: "int \<Rightarrow> string \<Rightarrow> int" where
  "digits_value acc [] = acc"
| "digits_value acc (ch # cs) =
     (if isdigit ch then digits_value (10 * acc + (ord ch - ord CHR ''0'')) cs else acc)"

definition strtol10 :: "string \<Rightarrow> int" where
  "strtol10 s =
     (let t = dropWhile isspace s;
          v = (case t of
                 [] \<Rightarrow> 0
               | ch # cs \<Rightarrow>
                   if ch = CHR ''-'' then - digits_value 0 cs
                   else if ch = CHR ''+'' then digits_value 0 cs
                   else digits_value 0 t)
      in max (- (2 ^ 63)) (min (2 ^ 63 - 1) v))"

definition atoi :: "string \<Rightarrow> int" where
  "atoi s = sint (word_of_int (strtol10 s) :: 32 word)"

subsection \<open>\<open>printf\<close> with \<open>%d\<close>\<close>

fun dec_nat :: "nat \<Rightarrow> string" where
  "dec_nat n =
     (if n < 10 then [char_of (48 + n)]
      else dec_nat (n div 10) @ [char_of (48 + n mod 10)])"

declare dec_nat.simps [simp del]

definition dec_int :: "int \<Rightarrow> string" where
  "dec_int i = (if i < 0 then CHR ''-'' # dec_nat (nat (- i)) else dec_nat (nat i))"

subsection \<open>\<open>getopt_long\<close>\<close>

text \<open>
  GNU \<open>getopt_long\<close> in its default mode: arguments that are not options are skipped
  (permuted behind the options), \<open>--\<close> ends the options, a long option may be abbreviated
  to an unambiguous prefix and may carry its argument after \<open>=\<close>, short options may be
  clustered, a required argument is the rest of the cluster or the next argument.  An
  unknown or ambiguous option, a missing argument and an argument given to a long option
  that takes none all return \<open>'?'\<close> (the option string does not start with \<open>':'\<close>).  The
  diagnostics \<open>getopt_long\<close> itself prints are not modelled.  The state is what is left of
  \<open>argv\<close> from \<open>optind\<close> on, and what is left of the current cluster.
\<close>

datatype has_arg = no_argument | required_argument

record long_option =
  lo_name :: string
  lo_has_arg :: has_arg
  lo_val :: int

record getopt_state =
  optargs :: "string list"
  nextchar :: string

definition is_option_arg :: "string \<Rightarrow> bool" where
  "is_option_arg s = (case s of ch # _ # _ \<Rightarrow> ch = CHR ''-'' | _ \<Rightarrow> False)"

fun lookup_short :: "char \<Rightarrow> string \<Rightarrow> has_arg option" where
  "lookup_short ch [] = None"
| "lookup_short ch (d # ds) =
     (if ch = d
      then Some (case ds of [] \<Rightarrow> no_argument
                 | e # _ \<Rightarrow> if e = CHR '':'' then required_argument else no_argument)
      else lookup_short ch ds)"

definition lookup_long :: "long_option list \<Rightarrow> string \<Rightarrow> long_option option" where
  "lookup_long tbl nm =
     (case filter (\<lambda>p. lo_name p = nm) tbl of
        p # _ \<Rightarrow> Some p
      | [] \<Rightarrow>
          (case filter (\<lambda>p. prefix nm (lo_name p)) tbl of
             [] \<Rightarrow> None
           | p # ps \<Rightarrow>
               if list_all (\<lambda>q. lo_has_arg q = lo_has_arg p \<and> lo_val q = lo_val p) ps
               then Some p else None))"

definition short_option ::
  "string \<Rightarrow> string \<Rightarrow> string list \<Rightarrow> int \<times> string option \<times> getopt_state" where
  "short_option sopt cluster rest =
     (case cluster of
        [] \<Rightarrow> (- 1, None, \<lparr>optargs = rest, nextchar = []\<rparr>)
      | ch # cs \<Rightarrow>
          (case (if ch = CHR '':'' \<or> ch = CHR '';'' then None else lookup_short ch sopt) of
             None \<Rightarrow> (ord CHR ''?'', None, \<lparr>optargs = rest, nextchar = cs\<rparr>)
           | Some no_argument \<Rightarrow> (ord ch, None, \<lparr>optargs = rest, nextchar = cs\<rparr>)
           | Some required_argument \<Rightarrow>
               if cs \<noteq> [] then (ord ch, Some cs, \<lparr>optargs = rest, nextchar = []\<rparr>)
               else (case rest of
                       [] \<Rightarrow> (ord CHR ''?'', None, \<lparr>optargs = [], nextchar = []\<rparr>)
                     | v # rest' \<Rightarrow> (ord ch, Some v, \<lparr>optargs = rest', nextchar = []\<rparr>))))"

definition long_option_step ::
  "long_option list \<Rightarrow> string \<Rightarrow> string list \<Rightarrow> int \<times> string option \<times> getopt_state" where
  "long_option_step lopt body rest =
     (let nm = takeWhile (\<lambda>ch. ch \<noteq> CHR ''='') body;
          eq = dropWhile (\<lambda>ch. ch \<noteq> CHR ''='') body
      in case lookup_long lopt nm of
           None \<Rightarrow> (ord CHR ''?'', None, \<lparr>optargs = rest, nextchar = []\<rparr>)
         | Some p \<Rightarrow>
             (case eq of
                _ # v \<Rightarrow>
                  if lo_has_arg p = no_argument
                  then (ord CHR ''?'', None, \<lparr>optargs = rest, nextchar = []\<rparr>)
                  else (lo_val p, Some v, \<lparr>optargs = rest, nextchar = []\<rparr>)
              | [] \<Rightarrow>
                  if lo_has_arg p = required_argument
                  then (case rest of
                          [] \<Rightarrow> (ord CHR ''?'', None, \<lparr>optargs = [], nextchar = []\<rparr>)
                        | v # rest' \<Rightarrow> (lo_val p, Some v, \<lparr>optargs = rest', nextchar = []\<rparr>))
                  else (lo_val p, None, \<lparr>optargs = rest, nextchar = []\<rparr>)))"

definition getopt_long ::
  "string \<Rightarrow> long_option list \<Rightarrow> getopt_state \<Rightarrow> int \<times> string option \<times> getopt_state" where
  "getopt_long sopt lopt g =
     (if nextchar g = [] then
        (case dropWhile (\<lambda>s. \<not> is_option_arg s) (optargs g) of
           [] \<Rightarrow> (- 1, None, \<lparr>optargs = [], nextchar = []\<rparr>)
         | a # rest \<Rightarrow>
             if a = ''--'' then (- 1, None, \<lparr>optargs = [], nextchar = []\<rparr>)
             else if take 2 a = ''--'' then long_option_step lopt (drop 2 a) rest
             else short_option sopt (drop 1 a) rest)
      else short_option sopt (nextchar g) (optargs g))"

definition gsize :: "getopt_state \<Rightarrow> nat" where
  "gsize g = length (nextchar g) + sum_list (map (\<lambda>s. Suc (length s)) (optargs g))"

section \<open>\<open>shot.c\<close>\<close>

subsection \<open>Messages\<close>

definition usage_text :: string where
  "usage_text = ''usage...\<newline>''"

definition usage_hint :: "string \<Rightarrow> string" where
  "usage_hint program_name =
     ''Try '' @ [CHR 0x27] @ program_name @ '' --help'' @ [CHR 0x27]
       @ '' for more information.\<newline>''"

text \<open>
  The argument of \<open>%d\<close> is \<open>monitor_count - 1\<close>; the count is at least 1 wherever the
  message is printed (\<open>parse_options\<close> asserts it).
\<close>

definition msg_invalid_monitor :: "MonitorManager \<Rightarrow> string" where
  "msg_invalid_monitor mgr =
     ''Invalid monitor number.Valid monitor numbers = 0..''
       @ dec_int (int (monitor_count mgr) - 1) @ ''\<newline>''"

definition msg_invalid_option :: "string \<Rightarrow> int \<Rightarrow> string" where
  "msg_invalid_option program_name c =
     program_name @ '': invalid option -- '' @ [CHR 0x27, char_of c, CHR 0x27]
       @ ''\<newline>''"

definition msg_canceled :: string where
  "msg_canceled = ''Canceled due to user input.\<newline>''"

definition msg_not_implemented :: string where
  "msg_not_implemented = ''Not implemented. Sorry...\<newline>''"

definition msg_invalid_argument :: string where
  "msg_invalid_argument = ''Invalid argument, aborting.\<newline>''"

definition msg_other :: string where
  "msg_other = ''An error occurred, aborting.\<newline>''"

definition msg_no_monitor_mgr :: string where
  "msg_no_monitor_mgr = ''Failed to initialize monitor manager, aborting.\<newline>''"

definition msg_non_positive :: string where
  "msg_non_positive =
     ''Cannot take screenshot with non-positive width or height.\<newline>''"

subsection \<open>\<open>init_region\<close>\<close>

text \<open>The \<open>for\<close> loop visits every monitor in order and does not stop at a primary one.\<close>

definition init_region :: "ShotRegion \<Rightarrow> MonitorManager \<Rightarrow> ShotRegion" where
  "init_region r mgr =
     fold (\<lambda>m r'. if mon_primary m
                   then r'\<lparr>reg_x := mon_x m + (mon_width m - reg_width r') sdiv 2,
                           reg_y := mon_y m + (mon_height m - reg_height r') sdiv 2\<rparr>
                   else r')
          (monitors mgr)
          (r\<lparr>reg_width := 640, reg_height := 480, reg_x := 40, reg_y := 40\<rparr>)"

text \<open>
  The region lines 47 and 48 compute for a primary monitor \<open>m\<close> (width and height are
  640 and 480 by then), the region of lines 36 to 39, and the body of the loop.
\<close>

definition centered_on :: "Monitor \<Rightarrow> ShotRegion" where
  "centered_on m =
     \<lparr>reg_x = mon_x m + (mon_width m - 640) sdiv 2,
      reg_y = mon_y m + (mon_height m - 480) sdiv 2,
      reg_width = 640, reg_height = 480\<rparr>"

definition default_region :: ShotRegion where
  "default_region = \<lparr>reg_x = 40, reg_y = 40, reg_width = 640, reg_height = 480\<rparr>"

definition center_step :: "Monitor \<Rightarrow> ShotRegion \<Rightarrow> ShotRegion" where
  "center_step m r' =
     (if mon_primary m
      then r'\<lparr>reg_x := mon_x m + (mon_width m - reg_width r') sdiv 2,
              reg_y := mon_y m + (mon_height m - reg_height r') sdiv 2\<rparr>
      else r')"

subsection \<open>\<open>parse_options\<close>\<close>

definition short_opt :: string where
  "short_opt = ''ho:r:diw''"

definition long_opt :: "long_option list" where
  "long_opt =
     [\<lparr>lo_name = ''help'', lo_has_arg = no_argument, lo_val = ord CHR ''h''\<rparr>,
      \<lparr>lo_name = ''output'', lo_has_arg = required_argument, lo_val = ord CHR ''o''\<rparr>,
      \<lparr>lo_name = ''region'', lo_has_arg = required_argument, lo_val = ord CHR ''r''\<rparr>,
      \<lparr>lo_name = ''monitor'', lo_has_arg = required_argument, lo_val = ord CHR ''m''\<rparr>,
      \<lparr>lo_name = ''desktop'', lo_has_arg = no_argument, lo_val = ord CHR ''d''\<rparr>,
      \<lparr>lo_name = ''interactive'', lo_has_arg = no_argument, lo_val = ord CHR ''i''\<rparr>,
      \<lparr>lo_name = ''window'', lo_has_arg = no_argument, lo_val = ord CHR ''w''\<rparr>]"

text \<open>\<open>argv[0]\<close> as \<open>%s\<close> prints it; glibc prints \<open>(null)\<close> for a null pointer.\<close>

definition program_name :: "string list \<Rightarrow> string" where
  "program_name argv = (case argv of [] \<Rightarrow> ''(null)'' | p # _ \<Rightarrow> p)"

text \<open>
  The body of the \<open>switch\<close> (lines 89 to 161), for the value \<open>c\<close> and the \<open>optarg\<close> that
  \<open>getopt_long\<close> returned.  \<open>size_t\<close> is 64 bits wide.
\<close>

definition switch_body ::
  "env \<Rightarrow> MonitorManager \<Rightarrow> string list \<Rightarrow> int \<Rightarrow> string option \<Rightarrow> pstate
     \<Rightarrow> abort + pstate" where
  "switch_body env mgr argv c optarg st =
     (if c = - 1 \<or> c = 0 then Inr st
      else if c = ord CHR ''o'' then Inr (st\<lparr>output_path := optarg\<rparr>)
      else if c = ord CHR ''h'' then
        Inr (st\<lparr>out_stdout := out_stdout st @ [usage_text], error := - 1\<rparr>)
      else if c = ord CHR '':'' \<or> c = ord CHR ''?'' then
        Inr (st\<lparr>out_stderr := out_stderr st @ [usage_hint (program_name argv)],
                error := 1\<rparr>)
      else if c = ord CHR ''d'' then
        (case update_region_from_all_monitors env (region st) mgr of
           (res, r) \<Rightarrow>
             Inr (st\<lparr>calls := calls st @ [CallFromAllMonitors],
                     region := r, region_result := res\<rparr>))
      else if c = ord CHR ''m'' then
        (case optarg of
           None \<Rightarrow> Inl NullDereference
         | Some s \<Rightarrow>
             (let n = (word_of_int (atoi s) :: 64 word) in
              if unat n \<ge> monitor_count mgr then
                Inr (st\<lparr>out_stderr := out_stderr st @ [msg_invalid_monitor mgr],
                        region_result := ERR_INVALID_ARGUMENT env\<rparr>)
              else
                (case update_region_from_monitor (region st) (monitors mgr ! unat n) of
                   (res, r) \<Rightarrow>
                     Inr (st\<lparr>calls := calls st @ [CallFromMonitor (monitors mgr ! unat n)],
                             region := r, region_result := res\<rparr>))))
      else if c = ord CHR ''r'' then
        (case update_region_from_string env (region st) optarg of
           (res, r) \<Rightarrow>
             Inr (st\<lparr>calls := calls st @ [CallFromString optarg],
                     region := r, region_result := res\<rparr>))
      else if c = ord CHR ''i'' then
        (case update_region_from_all_monitors env (indeterminate_region env) mgr of
           (res0, working_area) \<Rightarrow>
             if res0 \<noteq> 0 then Inl AssertionFailed
             else
               (case update_region_interactively env (region st) working_area of
                  (res, r) \<Rightarrow>
                    Inr (st\<lparr>calls := calls st @ [CallFromAllMonitors,
                                                  CallInteractively (region st) working_area],
                            region := r, region_result := res\<rparr>)))
      else if c = ord CHR ''w'' then
        (case update_region_from_active_window env (region st) of
           (res, r) \<Rightarrow>
             Inr (st\<lparr>calls := calls st @ [CallFromActiveWindow],
                     region := r, region_result := res\<rparr>))
      else
        Inr (st\<lparr>out_stderr := out_stderr st @ [msg_invalid_option (program_name argv) c,
                                                usage_hint (program_name argv)],
                error := 1\<rparr>))"

text \<open>
  Every call of \<open>getopt_long\<close> that returns an option uses up part of the arguments, which
  is why the \<open>while\<close> loop ends.
\<close>

lemma sum_list_dropWhile_le:
  "sum_list (map f (dropWhile P xs)) \<le> sum_list (map f xs)" for f :: "'a \<Rightarrow> nat"
  by (induction xs) auto

lemma short_option_decreases:
  assumes "short_option sopt cluster rest = (c, a, g')" and "c \<noteq> - 1"
  shows "gsize g' < length cluster + sum_list (map (\<lambda>s. Suc (length s)) rest)"
  using assms
  by (auto simp: short_option_def gsize_def
      split: list.splits option.splits has_arg.splits if_splits)

lemma long_option_step_decreases:
  "gsize (snd (snd (long_option_step lopt body rest)))
     \<le> sum_list (map (\<lambda>s. Suc (length s)) rest)"
  by (simp add: long_option_step_def gsize_def Let_def split: option.split list.split)

lemma getopt_long_decreases:
  assumes "getopt_long sopt lopt g = (c, a, g')" and "c \<noteq> - 1"
  shows "gsize g' < gsize g"
proof (cases "nextchar g = []")
  case False
  with assms show ?thesis
    using short_option_decreases [of sopt "nextchar g" "optargs g" c a g']
    by (simp add: getopt_long_def gsize_def)
next
  case True
  show ?thesis
  proof (cases "dropWhile (\<lambda>s. \<not> is_option_arg s) (optargs g)")
    case Nil
    with assms True show ?thesis by (simp add: getopt_long_def)
  next
    case (Cons b rest)
    have le: "sum_list (map (\<lambda>s. Suc (length s)) (b # rest)) \<le> gsize g"
      using sum_list_dropWhile_le
        [of "\<lambda>s. Suc (length s)" "\<lambda>s. \<not> is_option_arg s" "optargs g"]
      by (simp add: gsize_def Cons)
    show ?thesis
    proof (cases "take 2 b = ''--''")
      case True
      with assms \<open>nextchar g = []\<close> Cons
      have "long_option_step lopt (drop 2 b) rest = (c, a, g')"
        by (auto simp: getopt_long_def split: if_splits)
      with long_option_step_decreases [of lopt "drop 2 b" rest] le show ?thesis by simp
    next
      case False
      with assms \<open>nextchar g = []\<close> Cons
      have "short_option sopt (drop 1 b) rest = (c, a, g')"
        by (auto simp: getopt_long_def split: if_splits)
      from short_option_decreases [OF this assms(2)] le show ?thesis by simp
    qed
  qed
qed

text \<open>The \<open>while\<close> loop of lines 83 to 162.\<close>

function options_loop ::
  "env \<Rightarrow> MonitorManager \<Rightarrow> string list \<Rightarrow> pstate \<Rightarrow> getopt_state \<Rightarrow> abort + pstate" where
  "options_loop env mgr argv st g =
     (if error st \<noteq> 0 then Inr st
      else
        (case getopt_long short_opt long_opt g of
           (c, optarg, g') \<Rightarrow>
             if c = - 1 then Inr st
             else
               (case switch_body env mgr argv c optarg st of
                  Inl a \<Rightarrow> Inl a
                | Inr st' \<Rightarrow> options_loop env mgr argv st' g')))"
  by pat_completeness auto
termination
proof (relation "measure (\<lambda>(env, mgr, argv, st, g). gsize g)")
  fix env :: env and mgr :: MonitorManager and argv :: "string list"
    and st b :: pstate and g ya :: getopt_state and x :: int
    and y :: "string option \<times> getopt_state" and xa :: "string option"
  assume "(x, y) = getopt_long short_opt long_opt g" and "(xa, ya) = y" and "x \<noteq> - 1"
  then have "getopt_long short_opt long_opt g = (x, xa, ya)" by simp
  from getopt_long_decreases [OF this \<open>x \<noteq> - 1\<close>]
  show "((env, mgr, argv, b, ya), env, mgr, argv, st, g)
          \<in> measure (\<lambda>(env, mgr, argv, st, g). gsize g)"
    by simp
qed simp

declare options_loop.simps [simp del]

text \<open>Lines 164 to 170: no region was chosen in the arguments, take the whole desktop.\<close>

definition fallback_region :: "env \<Rightarrow> MonitorManager \<Rightarrow> pstate \<Rightarrow> pstate" where
  "fallback_region env mgr st =
     (if region_result st = - 1 then
        (case update_region_from_all_monitors env (region st) mgr of
           (res, r) \<Rightarrow>
             st\<lparr>calls := calls st @ [CallFromAllMonitors],
                region := r, region_result := res\<rparr>)
      else st)"

text \<open>Lines 172 to 192: a non-zero result is reported and becomes \<open>options.error = 1\<close>.\<close>

definition report_region_result :: "env \<Rightarrow> string list \<Rightarrow> pstate \<Rightarrow> pstate" where
  "report_region_result env argv st =
     (if region_result st \<noteq> 0 then
        st\<lparr>out_stderr := out_stderr st @
              (if region_result st = ERR_CANCELED env then [msg_canceled]
               else if region_result st = ERR_NOT_IMPLEMENTED env then [msg_not_implemented]
               else if region_result st = ERR_INVALID_ARGUMENT env
                 then [msg_invalid_argument, usage_hint (program_name argv)]
               else if region_result st = ERR_OTHER env then [msg_other]
               else []),
           error := 1\<rparr>
      else st)"

text \<open>
  The state before the loop: \<open>options\<close> is zero-initialised apart from what
  \<open>init_region\<close> writes, \<open>region_result\<close> is \<open>-1\<close>, nothing has been printed or called.
\<close>

definition initial_state :: "MonitorManager \<Rightarrow> pstate" where
  "initial_state mgr =
     \<lparr>error = 0, output_path = None,
      region = init_region \<lparr>reg_x = 0, reg_y = 0, reg_width = 0, reg_height = 0\<rparr> mgr,
      region_result = - 1, out_stdout = [], out_stderr = [], calls = []\<rparr>"

text \<open>\<open>getopt_long\<close> starts at \<open>argv[1]\<close> (\<open>optind = 1\<close>).\<close>

definition initial_getopt :: "string list \<Rightarrow> getopt_state" where
  "initial_getopt argv = \<lparr>optargs = drop 1 argv, nextchar = []\<rparr>"

text \<open>
  \<open>parse_options\<close>.  The pointers \<open>argv\<close> and \<open>monitor_mgr\<close> are values here, so only the
  third assertion can fail.
\<close>

definition parse_options :: "env \<Rightarrow> string list \<Rightarrow> MonitorManager \<Rightarrow> abort + pstate" where
  "parse_options env argv mgr =
     (if monitor_count mgr = 0 then Inl AssertionFailed
      else
        (case options_loop env mgr argv (initial_state mgr) (initial_getopt argv) of
           Inl a \<Rightarrow> Inl a
         | Inr st \<Rightarrow> Inr (report_region_result env argv (fallback_region env mgr st))))"

subsection \<open>\<open>main\<close>\<close>

text \<open>
  What a run of the program leaves behind: the exit code, the two output streams, the
  resolver calls, and the region handed to \<open>grab_screenshot\<close> if it was reached.
\<close>

record outcome =
  exit_code :: int
  final_stdout :: "string list"
  final_stderr :: "string list"
  final_calls :: "call list"
  grabbed :: "ShotRegion option"

text \<open>
  \<open>main\<close>, with the result of \<open>monitor_mgr_create\<close> as an argument (\<open>None\<close> is the null
  pointer).  The name chosen by \<open>get_output_path\<close> depends on the clock and on \<open>rand\<close>
  and decides nothing below; it is left out, as is the release of the resources.
\<close>

definition main :: "env \<Rightarrow> MonitorManager option \<Rightarrow> string list \<Rightarrow> abort + outcome" where
  "main env monitor_mgr argv =
     (case monitor_mgr of
        None \<Rightarrow>
          Inr \<lparr>exit_code = 1, final_stdout = [], final_stderr = [msg_no_monitor_mgr],
               final_calls = [], grabbed = None\<rparr>
      | Some mgr \<Rightarrow>
          (case parse_options env argv mgr of
             Inl a \<Rightarrow> Inl a
           | Inr options \<Rightarrow>
               if error options \<noteq> 0 then
                 Inr \<lparr>exit_code = 1, final_stdout = out_stdout options,
                      final_stderr = out_stderr options, final_calls = calls options,
                      grabbed = None\<rparr>
               else if reg_width (region options) \<le> 0 \<or> reg_height (region options) \<le> 0 then
                 Inr \<lparr>exit_code = 1, final_stdout = out_stdout options,
                      final_stderr = out_stderr options @ [msg_non_positive],
                      final_calls = calls options, grabbed = None\<rparr>
               else if \<not> grab_screenshot env (region options) then Inl AssertionFailed
               else if bitmap_save_to_png env (region options) \<noteq> 0 then
                 Inr \<lparr>exit_code = 1, final_stdout = out_stdout options,
                      final_stderr = out_stderr options, final_calls = calls options,
                      grabbed = Some (region options)\<rparr>
               else
                 Inr \<lparr>exit_code = 0, final_stdout = out_stdout options,
                      final_stderr = out_stderr options, final_calls = calls options,
                      grabbed = Some (region options)\<rparr>))"

section \<open>The options a run processes\<close>

text \<open>
  The options \<open>getopt_long\<close> returns for an argument vector, as pairs of the return value
  and \<open>optarg\<close>, and the loop of \<open>parse_options\<close> as a run over such a list.  The loop
  stops at the first option that sets \<open>options.error\<close>.
\<close>

function getopt_events :: "getopt_state \<Rightarrow> (int \<times> string option) list" where
  "getopt_events g =
     (case getopt_long short_opt long_opt g of
        (c, optarg, g') \<Rightarrow> if c = - 1 then [] else (c, optarg) # getopt_events g')"
  by pat_completeness auto
termination
proof (relation "measure gsize")
  fix g ya :: getopt_state and x :: int
    and y :: "string option \<times> getopt_state" and xa :: "string option"
  assume "(x, y) = getopt_long short_opt long_opt g" and "(xa, ya) = y" and "x \<noteq> - 1"
  then have "getopt_long short_opt long_opt g = (x, xa, ya)" by simp
  from getopt_long_decreases [OF this \<open>x \<noteq> - 1\<close>]
  show "(ya, g) \<in> measure gsize"
    by simp
qed simp

declare getopt_events.simps [simp del]

fun run_events ::
  "env \<Rightarrow> MonitorManager \<Rightarrow> string list \<Rightarrow> pstate \<Rightarrow> (int \<times> string option) list
     \<Rightarrow> abort + pstate" where
  "run_events env mgr argv st [] = Inr st"
| "run_events env mgr argv st ((c, optarg) # evs) =
     (if error st \<noteq> 0 then Inr st
      else
        (case switch_body env mgr argv c optarg st of
           Inl a \<Rightarrow> Inl a
         | Inr st' \<Rightarrow> run_events env mgr argv st' evs))"

definition is_mode :: "int \<Rightarrow> bool" where
  "is_mode c =
     (c = ord CHR ''d'' \<or> c = ord CHR ''m'' \<or> c = ord CHR ''r'' \<or> c = ord CHR ''i''
        \<or> c = ord CHR ''w'')"

text \<open>The values of \<open>c\<close> whose case sets \<open>options.error\<close>: help, and everything unknown.\<close>

definition is_stop :: "int \<Rightarrow> bool" where
  "is_stop c = (c \<noteq> - 1 \<and> c \<noteq> 0 \<and> c \<noteq> ord CHR ''o'' \<and> \<not> is_mode c)"

text \<open>The options the loop processes: all up to and including the first that stops it.\<close>

fun consumed :: "(int \<times> string option) list \<Rightarrow> (int \<times> string option) list" where
  "consumed [] = []"
| "consumed (e # es) = (if is_stop (fst e) then [e] else e # consumed es)"

definition processed :: "string list \<Rightarrow> (int \<times> string option) list" where
  "processed argv = consumed (getopt_events (initial_getopt argv))"


text \<open>Every call of the interactive selector so far had the working area \<open>d\<close>.\<close>

definition working_area_ok :: "ShotRegion \<Rightarrow> pstate \<Rightarrow> bool" where
  "working_area_ok d st = (\<forall>r w. CallInteractively r w \<in> set (calls st) \<longrightarrow> w = d)"

text \<open>A small environment and two monitor layouts for concrete runs.\<close>

definition env0 :: env where
  "env0 =
     \<lparr>ERR_CANCELED = 1, ERR_NOT_IMPLEMENTED = 2, ERR_INVALID_ARGUMENT = 3, ERR_OTHER = 4,
      update_region_from_string =
        (\<lambda>r s. if s = Some ''100x100''
               then (0, \<lparr>reg_x = 0, reg_y = 0, reg_width = 100, reg_height = 100\<rparr>)
               else (4, r)),
      update_region_interactively = (\<lambda>r w. (1, r)),
      update_region_from_active_window = (\<lambda>r. (2, r)),
      indeterminate_region = \<lparr>reg_x = 0, reg_y = 0, reg_width = 0, reg_height = 0\<rparr>,
      grab_screenshot = (\<lambda>r. True),
      bitmap_save_to_png = (\<lambda>r. 0)\<rparr>"

text \<open>The same environment with a user who clicks without dragging.\<close>

definition env1 :: env where
  "env1 = env0\<lparr>update_region_interactively :=
                  (\<lambda>r w. (0, r\<lparr>reg_width := 0, reg_height := 0\<rparr>))\<rparr>"

definition two_monitors :: MonitorManager where
  "two_monitors =
     \<lparr>monitors =
        [\<lparr>mon_x = 0, mon_y = 0, mon_width = 1920, mon_height = 1080, mon_primary = True\<rparr>,
         \<lparr>mon_x = 1920, mon_y = 0, mon_width = 1280, mon_height = 1024,
          mon_primary = False\<rparr>]\<rparr>"

definition no_primary :: MonitorManager where
  "no_primary =
     \<lparr>monitors =
        [\<lparr>mon_x = 0, mon_y = 0, mon_width = 1920, mon_height = 1080,
          mon_primary = False\<rparr>]\<rparr>"

section \<open>The initial region\<close>

lemma init_region_fold:
  "init_region r mgr =
     fold center_step (monitors mgr)
       (r\<lparr>reg_width := 640, reg_height := 480, reg_x := 40, reg_y := 40\<rparr>)"
  unfolding init_region_def center_step_def ..

lemma fold_center_step:
  assumes "reg_width r = 640" and "reg_height r = 480"
  shows "fold center_step ms r =
           (if filter mon_primary ms = [] then r
            else centered_on (last (filter mon_primary ms)))"
  using assms
proof (induction ms arbitrary: r)
  case Nil
  then show ?case by simp
next
  case (Cons m ms)
  show ?case
  proof (cases "mon_primary m")
    case False
    with Cons show ?thesis by (simp add: center_step_def)
  next
    case True
    have step: "center_step m r = centered_on m"
      using True Cons.prems by (simp add: center_step_def centered_on_def)
    have "reg_width (centered_on m) = 640" "reg_height (centered_on m) = 480"
      by (simp_all add: centered_on_def)
    from Cons.IH [OF this] have
      "fold center_step ms (centered_on m) =
         (if filter mon_primary ms = [] then centered_on m
          else centered_on (last (filter mon_primary ms)))" .
    moreover have "fold center_step (m # ms) r = fold center_step ms (centered_on m)"
      by (simp add: step)
    moreover have "filter mon_primary (m # ms) = m # filter mon_primary ms"
      using True by simp
    ultimately show ?thesis by (simp del: filter.simps)
  qed
qed

text \<open>
  Claim C7, as the code has it: with no monitor marked primary the initial region is the
  640x480 rectangle at (40, 40), and is not centred on the first monitor; with monitors
  marked primary it is the 640x480 rectangle centred on the last one marked, which is the
  primary monitor when exactly one is marked.
\<close>

theorem init_region_centering:
  "(filter mon_primary (monitors mgr) = [] \<longrightarrow> init_region r mgr = default_region) \<and>
   (filter mon_primary (monitors mgr) \<noteq> [] \<longrightarrow>
      init_region r mgr = centered_on (last (filter mon_primary (monitors mgr)))) \<and>
   (\<forall>p. filter mon_primary (monitors mgr) = [p] \<longrightarrow> init_region r mgr = centered_on p)"
proof -
  define r0 where "r0 = r\<lparr>reg_width := 640, reg_height := 480, reg_x := 40, reg_y := 40\<rparr>"
  have d: "r0 = default_region" by (simp add: default_region_def r0_def)
  have "reg_width r0 = 640" "reg_height r0 = 480" by (simp_all add: r0_def)
  then have "fold center_step (monitors mgr) r0 =
      (if filter mon_primary (monitors mgr) = [] then r0
       else centered_on (last (filter mon_primary (monitors mgr))))"
    by (rule fold_center_step)
  then have e: "init_region r mgr =
      (if filter mon_primary (monitors mgr) = [] then default_region
       else centered_on (last (filter mon_primary (monitors mgr))))"
    unfolding init_region_fold r0_def [symmetric] d .
  show ?thesis unfolding e by simp
qed


theorem init_region_centering_witness:
  "filter mon_primary (monitors no_primary) = [] \<and>
   init_region \<lparr>reg_x = 0, reg_y = 0, reg_width = 0, reg_height = 0\<rparr> no_primary
     = \<lparr>reg_x = 40, reg_y = 40, reg_width = 640, reg_height = 480\<rparr> \<and>
   filter mon_primary (monitors two_monitors) = [hd (monitors two_monitors)] \<and>
   init_region \<lparr>reg_x = 0, reg_y = 0, reg_width = 0, reg_height = 0\<rparr> two_monitors
     = \<lparr>reg_x = 640, reg_y = 300, reg_width = 640, reg_height = 480\<rparr>"
proof -
  have a: "filter mon_primary (monitors no_primary) = []"
    by (simp add: no_primary_def)
  have b: "filter mon_primary (monitors two_monitors) = [hd (monitors two_monitors)]"
    by (simp add: two_monitors_def)
  have c: "centered_on (hd (monitors two_monitors))
      = \<lparr>reg_x = 640, reg_y = 300, reg_width = 640, reg_height = 480\<rparr>"
    by (simp add: two_monitors_def centered_on_def signed_divide_int_def)
  have d: "last [hd (monitors two_monitors)] = hd (monitors two_monitors)" by simp
  note n = init_region_centering
    [of no_primary "\<lparr>reg_x = 0, reg_y = 0, reg_width = 0, reg_height = 0\<rparr>"]
  note t = init_region_centering
    [of two_monitors "\<lparr>reg_x = 0, reg_y = 0, reg_width = 0, reg_height = 0\<rparr>"]
  from n a have 1: "init_region \<lparr>reg_x = 0, reg_y = 0, reg_width = 0, reg_height = 0\<rparr>
      no_primary = default_region" by blast
  from t b have 2: "init_region \<lparr>reg_x = 0, reg_y = 0, reg_width = 0, reg_height = 0\<rparr>
      two_monitors = centered_on (hd (monitors two_monitors))" by blast
  show ?thesis
    unfolding 1 2 c using a b by (simp add: default_region_def)
qed

theorem init_region_no_primary_counterexample:
  "init_region \<lparr>reg_x = 0, reg_y = 0, reg_width = 0, reg_height = 0\<rparr> no_primary
     \<noteq> centered_on (hd (monitors no_primary))"
  by (simp add: init_region_def no_primary_def centered_on_def signed_divide_int_def)

section \<open>The loop as a run over the processed options\<close>

lemma options_loop_events:
  "options_loop env mgr argv st g = run_events env mgr argv st (getopt_events g)"
proof (induction env mgr argv st g rule: options_loop.induct)
  case (1 env mgr argv st g)
  obtain c optarg g' where go: "getopt_long short_opt long_opt g = (c, optarg, g')"
    by (cases "getopt_long short_opt long_opt g") auto
  show ?case
  proof (cases "error st \<noteq> 0")
    case True
    then show ?thesis
      by (cases "getopt_events g") (auto simp: options_loop.simps [of env mgr argv st g])
  next
    case e0: False
    show ?thesis
    proof (cases "c = - 1")
      case True
      with go e0 show ?thesis
        by (simp add: options_loop.simps [of env mgr argv st g] getopt_events.simps [of g])
    next
      case False
      show ?thesis
      proof (cases "switch_body env mgr argv c optarg st")
        case (Inl a)
        with go e0 False show ?thesis
          by (simp add: options_loop.simps [of env mgr argv st g] getopt_events.simps [of g])
      next
        case (Inr st')
        from "1.IH" [OF e0 go [symmetric] refl False Inr]
        have "options_loop env mgr argv st' g' = run_events env mgr argv st' (getopt_events g')" .
        with go e0 False Inr show ?thesis
          by (simp add: options_loop.simps [of env mgr argv st g] getopt_events.simps [of g])
      qed
    qed
  qed
qed

lemma run_events_error:
  "error st \<noteq> 0 \<Longrightarrow> run_events env mgr argv st evs = Inr st"
  by (cases evs) auto

lemma switch_body_stop:
  assumes "is_stop c"
  shows "\<exists>st'. switch_body env mgr argv c optarg st = Inr st' \<and> error st' \<noteq> 0
           \<and> region st' = region st \<and> region_result st' = region_result st
           \<and> calls st' = calls st"
  using assms by (simp add: switch_body_def is_stop_def is_mode_def)

lemma switch_body_non_mode:
  assumes "\<not> is_mode c"
  shows "\<exists>st'. switch_body env mgr argv c optarg st = Inr st'
           \<and> region st' = region st \<and> region_result st' = region_result st
           \<and> calls st' = calls st"
  using assms by (simp add: switch_body_def is_mode_def)

lemma switch_body_non_stop:
  assumes "\<not> is_stop c" and "switch_body env mgr argv c optarg st = Inr st'"
  shows "error st' = error st"
  using assms
  by (auto simp: switch_body_def is_stop_def is_mode_def Let_def
      split: if_splits prod.splits option.splits)

lemma switch_body_no_abort:
  assumes "monitors mgr \<noteq> []" and "c = ord CHR ''m'' \<longrightarrow> optarg \<noteq> None"
  shows "\<exists>st'. switch_body env mgr argv c optarg st = Inr st'"
  using assms
  by (auto simp: switch_body_def Let_def update_region_from_all_monitors_def
      split: prod.splits option.splits list.splits)

lemma lookup_long_mem: "lookup_long tbl nm = Some p \<Longrightarrow> p \<in> set tbl"
proof -
  assume a: "lookup_long tbl nm = Some p"
  have f: "\<And>P q qs. filter P tbl = q # qs \<Longrightarrow> q \<in> set tbl"
    by (metis filter_is_subset list.set_intros(1) subsetD)
  from a show ?thesis
    by (auto simp: lookup_long_def split: list.splits if_splits dest: f)
qed

lemma of_char_eq_109: "ord ch = 109 \<Longrightarrow> ch = CHR ''m''"
proof -
  assume "ord ch = 109"
  then have "ord ch = ord CHR ''m''" by simp
  then show ?thesis by (simp only: of_char_eq_iff)
qed

lemma short_option_m:
  "fst (short_option short_opt cluster rest) \<noteq> ord CHR ''m''"
proof (cases cluster)
  case Nil
  then show ?thesis by (simp add: short_option_def)
next
  case (Cons ch cs)
  show ?thesis
  proof (cases "ch = CHR ''m''")
    case True
    with Cons show ?thesis by (simp add: short_option_def short_opt_def)
  next
    case False
    then have "ord ch \<noteq> 109" using of_char_eq_109 by blast
    with Cons show ?thesis
      by (simp add: short_option_def split: option.split has_arg.split list.split)
  qed
qed

lemma long_option_step_m:
  "long_option_step long_opt body rest = (109, a, g') \<Longrightarrow> a \<noteq> None"
proof -
  assume r: "long_option_step long_opt body rest = (109, a, g')"
  show ?thesis
  proof (cases "lookup_long long_opt (takeWhile (\<lambda>ch. ch \<noteq> CHR ''='') body)")
    case None
    with r show ?thesis by (simp add: long_option_step_def Let_def)
  next
    case (Some p)
    from lookup_long_mem [OF Some] have "lo_val p = 109 \<longrightarrow> lo_has_arg p = required_argument"
      by (auto simp: long_opt_def)
    with r Some show ?thesis
      by (auto simp: long_option_step_def Let_def split: list.splits if_splits)
  qed
qed

lemma getopt_long_m:
  assumes "getopt_long short_opt long_opt g = (c, a, g')" and "c = ord CHR ''m''"
  shows "a \<noteq> None"
proof -
  have s: "\<And>cl rest. short_option short_opt cl rest \<noteq> (c, a, g')"
    using short_option_m assms(2) by (metis fst_conv)
  from assms s show ?thesis
    by (auto simp: getopt_long_def split: if_splits list.splits
        dest: long_option_step_m)
qed

lemma getopt_events_m:
  "(c, a) \<in> set (getopt_events g) \<Longrightarrow> c = ord CHR ''m'' \<Longrightarrow> a \<noteq> None"
proof (induction g rule: getopt_events.induct)
  case (1 g)
  obtain c0 a0 g' where go: "getopt_long short_opt long_opt g = (c0, a0, g')"
    by (cases "getopt_long short_opt long_opt g") auto
  show ?case
  proof (cases "c0 = - 1")
    case True
    with go "1.prems" show ?thesis by (simp add: getopt_events.simps [of g])
  next
    case False
    with go "1.prems"(1) have "(c, a) = (c0, a0) \<or> (c, a) \<in> set (getopt_events g')"
      by (simp add: getopt_events.simps [of g])
    then show ?thesis
    proof
      assume "(c, a) = (c0, a0)"
      with go "1.prems"(2) getopt_long_m show ?thesis by blast
    next
      assume "(c, a) \<in> set (getopt_events g')"
      from "1.IH" [OF go [symmetric] refl False this "1.prems"(2)] show ?thesis .
    qed
  qed
qed

lemma set_consumed: "set (consumed evs) \<subseteq> set evs"
  by (induction evs) auto

lemma processed_m:
  "(c, a) \<in> set (processed argv) \<Longrightarrow> c = ord CHR ''m'' \<Longrightarrow> a \<noteq> None"
  unfolding processed_def using set_consumed getopt_events_m by blast

lemma consumed_prefix_non_stop:
  "consumed evs = xs @ y # ys \<Longrightarrow> e \<in> set xs \<Longrightarrow> \<not> is_stop (fst e)"
proof (induction evs arbitrary: xs)
  case Nil
  then show ?case by simp
next
  case (Cons e0 es)
  show ?case
  proof (cases "is_stop (fst e0)")
    case True
    with Cons.prems show ?thesis by (cases xs) auto
  next
    case False
    show ?thesis
    proof (cases xs)
      case Nil
      with Cons.prems show ?thesis by simp
    next
      case (Cons x xs')
      with False Cons.prems(1) have "x = e0" "consumed es = xs' @ y # ys" by auto
      with Cons.IH [of xs'] Cons.prems(2) False \<open>xs = x # xs'\<close> show ?thesis by auto
    qed
  qed
qed

lemma run_events_consumed:
  "run_events env mgr argv st (consumed evs) = run_events env mgr argv st evs"
proof (induction evs arbitrary: st)
  case Nil
  then show ?case by simp
next
  case (Cons e es)
  obtain c a where e: "e = (c, a)" by (cases e)
  show ?case
  proof (cases "is_stop c")
    case True
    from switch_body_stop [OF True, of env mgr argv a st]
    obtain st' where "switch_body env mgr argv c a st = Inr st'" "error st' \<noteq> 0" by blast
    with True e show ?thesis by (simp add: run_events_error)
  next
    case False
    with e Cons.IH show ?thesis by (simp split: sum.split)
  qed
qed

lemma run_events_append:
  "run_events env mgr argv st (xs @ ys) =
     (case run_events env mgr argv st xs of
        Inl a \<Rightarrow> Inl a
      | Inr st' \<Rightarrow> run_events env mgr argv st' ys)"
proof (induction xs arbitrary: st)
  case Nil
  then show ?case by simp
next
  case (Cons e xs)
  obtain c a where e: "e = (c, a)" by (cases e)
  show ?case
    using Cons.IH by (simp add: e run_events_error split: sum.split)
qed

lemma run_events_non_stop:
  assumes "monitors mgr \<noteq> []"
    and "\<And>c a. (c, a) \<in> set xs \<Longrightarrow> \<not> is_stop c \<and> (c = ord CHR ''m'' \<longrightarrow> a \<noteq> None)"
    and "error st = 0"
  shows "\<exists>st'. run_events env mgr argv st xs = Inr st' \<and> error st' = 0"
  using assms(2,3)
proof (induction xs arbitrary: st)
  case Nil
  then show ?case by simp
next
  case (Cons e xs)
  obtain c a where e: "e = (c, a)" by (cases e)
  from Cons.prems(1) [of c a] e have ns: "\<not> is_stop c" and m: "c = ord CHR ''m'' \<longrightarrow> a \<noteq> None"
    by auto
  from switch_body_no_abort [OF assms(1) m, of env argv st]
  obtain st1 where s: "switch_body env mgr argv c a st = Inr st1" by blast
  from switch_body_non_stop [OF ns s] Cons.prems(2) have "error st1 = 0" by simp
  from Cons.IH [OF _ this] Cons.prems(1)
  obtain st' where "run_events env mgr argv st1 xs = Inr st'" "error st' = 0" by auto
  with s e Cons.prems(2) show ?case by simp
qed

lemma run_events_non_mode:
  assumes "\<And>e. e \<in> set ys \<Longrightarrow> \<not> is_mode (fst e)"
  shows "\<exists>st'. run_events env mgr argv st ys = Inr st' \<and> region st' = region st
           \<and> region_result st' = region_result st \<and> calls st' = calls st"
  using assms
proof (induction ys arbitrary: st)
  case Nil
  then show ?case by simp
next
  case (Cons e ys)
  obtain c a where e: "e = (c, a)" by (cases e)
  from Cons.prems [of e] e have "\<not> is_mode c" by simp
  from switch_body_non_mode [OF this, of env mgr argv a st]
  obtain st1 where s: "switch_body env mgr argv c a st = Inr st1"
    "region st1 = region st" "region_result st1 = region_result st" "calls st1 = calls st"
    by blast
  from Cons.IH [of st1] Cons.prems
  obtain st' where "run_events env mgr argv st1 ys = Inr st'" "region st' = region st1"
    "region_result st' = region_result st1" "calls st' = calls st1" by auto
  with s e show ?case by (cases "error st = 0") auto
qed

lemma options_loop_processed:
  "options_loop env mgr argv st (initial_getopt argv)
     = run_events env mgr argv st (processed argv)"
  by (simp add: options_loop_events processed_def run_events_consumed)

lemma loop_last_mode:
  assumes mgr: "monitors mgr \<noteq> []"
    and p: "processed argv = pre @ (c, optarg) # post"
    and c: "is_mode c"
    and post: "\<forall>e\<in>set post. \<not> is_mode (fst e)"
    and st0: "error st0 = 0"
  shows "\<exists>st1 st2 st3.
           run_events env mgr argv st0 pre = Inr st1 \<and> error st1 = 0
         \<and> switch_body env mgr argv c optarg st1 = Inr st2
         \<and> options_loop env mgr argv st0 (initial_getopt argv) = Inr st3
         \<and> region st3 = region st2 \<and> region_result st3 = region_result st2
         \<and> calls st3 = calls st2"
proof -
  have pre_ok: "\<not> is_stop c' \<and> (c' = ord CHR ''m'' \<longrightarrow> a' \<noteq> None)"
    if "(c', a') \<in> set pre" for c' a'
  proof
    from consumed_prefix_non_stop [of "getopt_events (initial_getopt argv)" pre "(c, optarg)" post
      "(c', a')"] p that
    show "\<not> is_stop c'" by (simp add: processed_def)
    from that p have "(c', a') \<in> set (processed argv)" by simp
    then show "c' = ord CHR ''m'' \<longrightarrow> a' \<noteq> None" using processed_m by blast
  qed
  from run_events_non_stop [OF mgr pre_ok st0, of pre env argv]
  obtain st1 where 1: "run_events env mgr argv st0 pre = Inr st1" "error st1 = 0" by blast
  have "(c, optarg) \<in> set (processed argv)" using p by simp
  then have "c = ord CHR ''m'' \<longrightarrow> optarg \<noteq> None" using processed_m by blast
  from switch_body_no_abort [OF mgr this, of env argv st1]
  obtain st2 where 2: "switch_body env mgr argv c optarg st1 = Inr st2" by blast
  from run_events_non_mode [of post env mgr argv st2] post
  obtain st3 where 3: "run_events env mgr argv st2 post = Inr st3" "region st3 = region st2"
    "region_result st3 = region_result st2" "calls st3 = calls st2" by blast
  have "options_loop env mgr argv st0 (initial_getopt argv) = Inr st3"
    using 1 2 3(1) by (simp add: options_loop_processed p run_events_append)
  with 1 2 3 show ?thesis by blast
qed

lemma loop_no_mode:
  assumes "\<forall>e\<in>set (processed argv). \<not> is_mode (fst e)"
  shows "\<exists>st. options_loop env mgr argv st0 (initial_getopt argv) = Inr st
           \<and> region st = region st0 \<and> region_result st = region_result st0
           \<and> calls st = calls st0"
  using run_events_non_mode [of "processed argv" env mgr argv st0] assms
  by (simp add: options_loop_processed)

lemma fallback_region_chosen:
  "region_result st \<noteq> - 1 \<Longrightarrow> fallback_region env mgr st = st"
  by (simp add: fallback_region_def)

lemma fallback_region_unset:
  assumes "region_result st = - 1" and "monitors mgr = m # ms"
  shows "fallback_region env mgr st =
           st\<lparr>calls := calls st @ [CallFromAllMonitors],
              region := desktop_bounds m ms, region_result := 0\<rparr>"
  using assms by (simp add: fallback_region_def update_region_from_all_monitors_def)

lemma report_region_result_keeps:
  "region (report_region_result env argv st) = region st"
  "region_result (report_region_result env argv st) = region_result st"
  "calls (report_region_result env argv st) = calls st"
  "out_stdout (report_region_result env argv st) = out_stdout st"
  by (simp_all add: report_region_result_def)

lemma parse_options_loop:
  assumes "monitors mgr \<noteq> []"
    and "options_loop env mgr argv (initial_state mgr) (initial_getopt argv) = Inr st"
  shows "parse_options env argv mgr
           = Inr (report_region_result env argv (fallback_region env mgr st))"
  using assms by (simp add: parse_options_def monitor_count_def)

lemma initial_state_simps:
  "error (initial_state mgr) = 0"
  "region_result (initial_state mgr) = - 1"
  "calls (initial_state mgr) = []"
  "out_stdout (initial_state mgr) = []"
  "out_stderr (initial_state mgr) = []"
  by (simp_all add: initial_state_def)









section \<open>The fallback to the whole desktop\<close>

lemma fold_min_Min:
  "fold (\<lambda>k a. min (f k) a) ms (a0 :: int) = Min (insert a0 (f ` set ms))"
proof (induction ms arbitrary: a0)
  case Nil
  then show ?case by simp
next
  case (Cons m ms)
  have "Min (insert (min (f m) a0) (f ` set ms)) = Min (insert a0 (insert (f m) (f ` set ms)))"
    by (cases "set ms = {}") (simp_all add: min.commute min.left_commute)
  with Cons show ?case by simp
qed

lemma fold_max_Max:
  "fold (\<lambda>k a. max (f k) a) ms (a0 :: int) = Max (insert a0 (f ` set ms))"
proof (induction ms arbitrary: a0)
  case Nil
  then show ?case by simp
next
  case (Cons m ms)
  have "Max (insert (max (f m) a0) (f ` set ms)) = Max (insert a0 (insert (f m) (f ` set ms)))"
    by (cases "set ms = {}") (simp_all add: max.commute max.left_commute)
  with Cons show ?case by simp
qed

lemma desktop_bounds_Min_Max:
  "desktop_bounds m ms =
     \<lparr>reg_x = Min (mon_x ` set (m # ms)),
      reg_y = Min (mon_y ` set (m # ms)),
      reg_width = Max ((\<lambda>k. mon_x k + mon_width k) ` set (m # ms)) - Min (mon_x ` set (m # ms)),
      reg_height = Max ((\<lambda>k. mon_y k + mon_height k) ` set (m # ms))
                     - Min (mon_y ` set (m # ms))\<rparr>"
  by (simp add: desktop_bounds_def Let_def fold_min_Min fold_max_Max
      fold_max_Max [of "\<lambda>k. mon_x k + mon_width k"]
      fold_max_Max [of "\<lambda>k. mon_y k + mon_height k"])

text \<open>
  Claim C2: when no region-mode option is processed, \<open>parse_options\<close> resolves the region
  through \<open>update_region_from_all_monitors\<close> alone, with result code 0, and the region is
  the bounding box of all monitors.
\<close>

theorem no_mode_takes_desktop:
  assumes "monitors mgr = m # ms"
    and "\<forall>e\<in>set (processed argv). \<not> is_mode (fst e)"
  shows "\<exists>st. parse_options env argv mgr = Inr st
           \<and> calls st = [CallFromAllMonitors]
           \<and> region_result st = 0
           \<and> region st = snd (update_region_from_all_monitors env r mgr)
           \<and> region st =
               \<lparr>reg_x = Min (mon_x ` set (monitors mgr)),
                reg_y = Min (mon_y ` set (monitors mgr)),
                reg_width = Max ((\<lambda>k. mon_x k + mon_width k) ` set (monitors mgr))
                              - Min (mon_x ` set (monitors mgr)),
                reg_height = Max ((\<lambda>k. mon_y k + mon_height k) ` set (monitors mgr))
                               - Min (mon_y ` set (monitors mgr))\<rparr>"
proof -
  from loop_no_mode [OF assms(2), of env mgr "initial_state mgr"]
  obtain st where l: "options_loop env mgr argv (initial_state mgr) (initial_getopt argv) = Inr st"
    and k: "region_result st = - 1" "calls st = []"
    by (auto simp: initial_state_simps)
  let ?st = "report_region_result env argv (fallback_region env mgr st)"
  have ne: "monitors mgr \<noteq> []" using assms(1) by simp
  have p: "parse_options env argv mgr = Inr ?st"
    by (rule parse_options_loop [OF ne l])
  have f: "fallback_region env mgr st =
      st\<lparr>calls := calls st @ [CallFromAllMonitors], region := desktop_bounds m ms,
         region_result := 0\<rparr>"
    by (rule fallback_region_unset [OF k(1) assms(1)])
  have "calls ?st = [CallFromAllMonitors]" "region_result ?st = 0"
    "region ?st = desktop_bounds m ms"
    by (simp_all add: f report_region_result_keeps k)
  moreover have "snd (update_region_from_all_monitors env r mgr)
      = desktop_bounds m ms"
    by (simp add: update_region_from_all_monitors_def assms(1))
  ultimately show ?thesis
    using p by (simp add: desktop_bounds_Min_Max assms(1))
qed

theorem no_mode_takes_desktop_witness:
  "monitors two_monitors
     = \<lparr>mon_x = 0, mon_y = 0, mon_width = 1920, mon_height = 1080, mon_primary = True\<rparr>
       # [\<lparr>mon_x = 1920, mon_y = 0, mon_width = 1280, mon_height = 1024,
           mon_primary = False\<rparr>]
   \<and> processed [''shot''] = []
   \<and> (\<exists>st. parse_options env0 [''shot''] two_monitors = Inr st
          \<and> region_result st = 0
          \<and> region st = \<lparr>reg_x = 0, reg_y = 0, reg_width = 3200, reg_height = 1080\<rparr>)"
proof -
  have m: "monitors two_monitors
     = \<lparr>mon_x = 0, mon_y = 0, mon_width = 1920, mon_height = 1080, mon_primary = True\<rparr>
       # [\<lparr>mon_x = 1920, mon_y = 0, mon_width = 1280, mon_height = 1024,
           mon_primary = False\<rparr>]"
    by (simp add: two_monitors_def)
  have e: "processed [''shot''] = []" by code_simp
  then have p: "\<forall>e\<in>set (processed [''shot'']). \<not> is_mode (fst e)" by simp
  from no_mode_takes_desktop [OF m p, of env0 "indeterminate_region env0"]
  obtain st where "parse_options env0 [''shot''] two_monitors = Inr st"
    "region_result st = 0"
    "region st = snd (update_region_from_all_monitors env0
        (indeterminate_region env0) two_monitors)"
    by blast
  moreover have "snd (update_region_from_all_monitors env0
        (indeterminate_region env0) two_monitors)
      = \<lparr>reg_x = 0, reg_y = 0, reg_width = 3200, reg_height = 1080\<rparr>"
    by (simp add: update_region_from_all_monitors_def two_monitors_def desktop_bounds_def)
  ultimately show ?thesis using m e by auto
qed

section \<open>The monitor index\<close>

lemma atoi_range: "- (2 ^ 31) \<le> atoi s \<and> atoi s < 2 ^ 31"
  using sint_ge [of "word_of_int (strtol10 s) :: 32 word"]
    sint_lt [of "word_of_int (strtol10 s) :: 32 word"]
  by (simp add: atoi_def)

lemma unat_size_t_of_int:
  "unat (word_of_int i :: 64 word) = nat (i mod 2 ^ 64)"
  by (simp add: unat_eq_nat_uint uint_word_of_int)

lemma size_t_of_non_negative:
  assumes "0 \<le> atoi s"
  shows "unat (word_of_int (atoi s) :: 64 word) = nat (atoi s)"
proof -
  from atoi_range [of s] have "atoi s < 2 ^ 64" by simp
  with assms show ?thesis by (simp add: unat_size_t_of_int)
qed

lemma size_t_of_negative:
  assumes "atoi s < 0"
  shows "unat (word_of_int (atoi s) :: 64 word) = nat (atoi s + 2 ^ 64)"
proof -
  from atoi_range [of s] have "- (2 ^ 64) \<le> atoi s" by simp
  with assms have "atoi s mod 2 ^ 64 = atoi s + 2 ^ 64"
    by (smt (verit, best) mod_add_self2 mod_pos_pos_trivial)
  then show ?thesis by (simp add: unat_size_t_of_int)
qed

text \<open>
  Claim C4: for the index \<open>i\<close> that \<open>atoi\<close> reads from the argument of \<open>--monitor\<close>: if
  \<open>0 \<le> i < monitor_count\<close> the region becomes exactly the rectangle of monitor \<open>i\<close>,
  with result 0; if \<open>i \<ge> monitor_count\<close> the result is \<open>ERR_INVALID_ARGUMENT\<close>, the
  region is left alone and the message names the valid range \<open>0..monitor_count - 1\<close>.
\<close>

theorem monitor_index_resolution:
  assumes "atoi s = i"
  shows "(0 \<le> i \<and> i < int (monitor_count mgr) \<longrightarrow>
            switch_body env mgr argv (ord CHR ''m'') (Some s) st
              = Inr (st\<lparr>calls := calls st @ [CallFromMonitor (monitors mgr ! nat i)],
                       region := \<lparr>reg_x = mon_x (monitors mgr ! nat i),
                                  reg_y = mon_y (monitors mgr ! nat i),
                                  reg_width = mon_width (monitors mgr ! nat i),
                                  reg_height = mon_height (monitors mgr ! nat i)\<rparr>,
                       region_result := 0\<rparr>))
       \<and> (int (monitor_count mgr) \<le> i \<longrightarrow>
            switch_body env mgr argv (ord CHR ''m'') (Some s) st
              = Inr (st\<lparr>out_stderr := out_stderr st @
                         [''Invalid monitor number.Valid monitor numbers = 0..''
                            @ dec_int (int (monitor_count mgr) - 1) @ ''\<newline>''],
                       region_result := ERR_INVALID_ARGUMENT env\<rparr>))"
proof (intro conjI impI)
  assume r: "0 \<le> i \<and> i < int (monitor_count mgr)"
  with assms have "unat (word_of_int (atoi s) :: 64 word) = nat i"
    using size_t_of_non_negative [of s] by simp
  moreover from r have "nat i < monitor_count mgr" by linarith
  ultimately show "switch_body env mgr argv (ord CHR ''m'') (Some s) st
      = Inr (st\<lparr>calls := calls st @ [CallFromMonitor (monitors mgr ! nat i)],
               region := \<lparr>reg_x = mon_x (monitors mgr ! nat i),
                          reg_y = mon_y (monitors mgr ! nat i),
                          reg_width = mon_width (monitors mgr ! nat i),
                          reg_height = mon_height (monitors mgr ! nat i)\<rparr>,
               region_result := 0\<rparr>)"
    by (simp add: switch_body_def update_region_from_monitor_def)
next
  assume r: "int (monitor_count mgr) \<le> i"
  then have "0 \<le> i" by simp
  with assms have "unat (word_of_int (atoi s) :: 64 word) = nat i"
    using size_t_of_non_negative [of s] by simp
  moreover from r have "monitor_count mgr \<le> nat i" by linarith
  ultimately show "switch_body env mgr argv (ord CHR ''m'') (Some s) st
      = Inr (st\<lparr>out_stderr := out_stderr st @
                 [''Invalid monitor number.Valid monitor numbers = 0..''
                    @ dec_int (int (monitor_count mgr) - 1) @ ''\<newline>''],
               region_result := ERR_INVALID_ARGUMENT env\<rparr>)"
    by (simp add: switch_body_def msg_invalid_monitor_def)
qed

theorem monitor_index_resolution_witness:
  "atoi ''1'' = 1 \<and> (0 :: int) \<le> 1 \<and> 1 < int (monitor_count two_monitors)
   \<and> map_sum id region
        (switch_body env0 two_monitors [''shot''] (ord CHR ''m'') (Some ''1'')
           (initial_state two_monitors))
       = Inr \<lparr>reg_x = 1920, reg_y = 0, reg_width = 1280, reg_height = 1024\<rparr>
   \<and> atoi ''2'' = 2 \<and> int (monitor_count two_monitors) \<le> 2
   \<and> map_sum id region_result
        (switch_body env0 two_monitors [''shot''] (ord CHR ''m'') (Some ''2'')
           (initial_state two_monitors))
       = Inr (ERR_INVALID_ARGUMENT env0)
   \<and> map_sum id out_stderr
        (switch_body env0 two_monitors [''shot''] (ord CHR ''m'') (Some ''2'')
           (initial_state two_monitors))
       = Inr [''Invalid monitor number.Valid monitor numbers = 0..1\<newline>'']"
proof -
  have a1: "atoi ''1'' = 1" by code_simp
  have a2: "atoi ''2'' = 2" by code_simp
  have n: "monitor_count two_monitors = 2" by (simp add: monitor_count_def two_monitors_def)
  have d: "dec_int 1 = ''1''" by code_simp
  from monitor_index_resolution
    [OF a1, of two_monitors env0 "[''shot'']" "initial_state two_monitors"] n
  have 1: "map_sum id region
        (switch_body env0 two_monitors [''shot''] (ord CHR ''m'') (Some ''1'')
           (initial_state two_monitors))
       = Inr \<lparr>reg_x = 1920, reg_y = 0, reg_width = 1280, reg_height = 1024\<rparr>"
    by (simp add: two_monitors_def)
  from monitor_index_resolution
    [OF a2, of two_monitors env0 "[''shot'']" "initial_state two_monitors"] n
  have 2: "switch_body env0 two_monitors [''shot''] (ord CHR ''m'') (Some ''2'')
           (initial_state two_monitors)
       = Inr ((initial_state two_monitors)\<lparr>out_stderr :=
                  out_stderr (initial_state two_monitors) @
                    [''Invalid monitor number.Valid monitor numbers = 0..''
                       @ dec_int 1 @ ''\<newline>''],
                region_result := ERR_INVALID_ARGUMENT env0\<rparr>)"
    by simp
  show ?thesis
    unfolding 2 d using a1 a2 n 1 by (simp add: initial_state_def)
qed

text \<open>
  Claim C10: an argument of \<open>--monitor\<close> that \<open>atoi\<close> reads as a negative number becomes,
  as a \<open>size_t\<close>, a value no smaller than \<open>monitor_count\<close>; the case reports
  \<open>ERR_INVALID_ARGUMENT\<close>, calls no resolver and leaves the region alone, so a negative
  index never selects a monitor.
\<close>

theorem negative_monitor_index_rejected:
  assumes "atoi s < 0" and "monitor_count mgr < 2 ^ 32"
  shows "monitor_count mgr \<le> unat (word_of_int (atoi s) :: 64 word)
       \<and> switch_body env mgr argv (ord CHR ''m'') (Some s) st
           = Inr (st\<lparr>out_stderr := out_stderr st @ [msg_invalid_monitor mgr],
                    region_result := ERR_INVALID_ARGUMENT env\<rparr>)"
proof -
  from atoi_range [of s] have "2 ^ 32 \<le> atoi s + 2 ^ 64" by simp
  then have "2 ^ 32 \<le> nat (atoi s + 2 ^ 64)" by simp
  with assms(2) have "monitor_count mgr \<le> unat (word_of_int (atoi s) :: 64 word)"
    by (simp add: size_t_of_negative [OF assms(1)])
  then show ?thesis by (simp add: switch_body_def)
qed

theorem negative_monitor_index_rejected_witness:
  "atoi ''-1'' < 0 \<and> monitor_count two_monitors < 2 ^ 32
   \<and> map_sum id region_result
        (switch_body env0 two_monitors [''shot''] (ord CHR ''m'') (Some ''-1'')
           (initial_state two_monitors))
       = Inr (ERR_INVALID_ARGUMENT env0)
   \<and> map_sum id calls
        (switch_body env0 two_monitors [''shot''] (ord CHR ''m'') (Some ''-1'')
           (initial_state two_monitors))
       = Inr []"
proof -
  have a: "atoi ''-1'' < 0" by code_simp
  have n: "monitor_count two_monitors < 2 ^ 32"
    by (simp add: monitor_count_def two_monitors_def)
  from negative_monitor_index_rejected
    [OF a n, of env0 "[''shot'']" "initial_state two_monitors"] a n
  show ?thesis by (simp add: initial_state_def)
qed

section \<open>Validation of the region in main\<close>

lemma parse_options_error_0:
  assumes "parse_options env argv mgr = Inr st" and "error st = 0"
  shows "region_result st = 0"
proof -
  from assms(1) obtain st' where
    st: "st = report_region_result env argv (fallback_region env mgr st')"
    by (auto simp: parse_options_def split: if_splits sum.splits)
  show ?thesis
  proof (rule ccontr)
    assume "region_result st \<noteq> 0"
    then have "region_result (fallback_region env mgr st') \<noteq> 0"
      by (simp add: st report_region_result_keeps)
    then have "error st = 1" by (simp add: st report_region_result_def)
    with assms(2) show False by simp
  qed
qed

lemma main_grabbed_positive:
  assumes "main env monitor_mgr argv = Inr out" and "grabbed out = Some r"
  shows "0 < reg_width r \<and> 0 < reg_height r"
  using assms
  by (auto simp: main_def split: option.splits sum.splits if_splits)

lemma msg_non_positive_distinct:
  "msg_non_positive \<noteq> msg_canceled" "msg_non_positive \<noteq> msg_not_implemented"
  "msg_non_positive \<noteq> msg_invalid_argument" "msg_non_positive \<noteq> msg_other"
  by (simp_all add: msg_non_positive_def msg_canceled_def msg_not_implemented_def
      msg_invalid_argument_def msg_other_def)

text \<open>
  Claim C3: when \<open>parse_options\<close> returns without an error (the resolver's result is 0),
  \<open>main\<close> checks the region before the capture: a width or height that is not positive
  ends the run with exit code 1 and a message of its own, different from the messages of
  the four resolver failures, and \<open>grab_screenshot\<close> is not called; \<open>grab_screenshot\<close> is
  only ever called with a region of positive width and height.
\<close>

theorem final_validation:
  assumes "parse_options env argv mgr = Inr st" and "error st = 0"
  shows "region_result st = 0
       \<and> (reg_width (region st) \<le> 0 \<or> reg_height (region st) \<le> 0 \<longrightarrow>
            main env (Some mgr) argv
              = Inr \<lparr>exit_code = 1, final_stdout = out_stdout st,
                     final_stderr = out_stderr st @ [msg_non_positive],
                     final_calls = calls st, grabbed = None\<rparr>)
       \<and> (0 < reg_width (region st) \<and> 0 < reg_height (region st)
            \<and> grab_screenshot env (region st) \<longrightarrow>
            (\<exists>out. main env (Some mgr) argv = Inr out \<and> grabbed out = Some (region st)))
       \<and> (\<forall>out r. main env (Some mgr) argv = Inr out \<and> grabbed out = Some r \<longrightarrow>
            0 < reg_width r \<and> 0 < reg_height r)
       \<and> msg_non_positive \<notin> {msg_canceled, msg_not_implemented, msg_invalid_argument,
                                msg_other}"
proof -
  have 1: "region_result st = 0" by (rule parse_options_error_0 [OF assms])
  have 2: "reg_width (region st) \<le> 0 \<or> reg_height (region st) \<le> 0 \<longrightarrow>
      main env (Some mgr) argv
        = Inr \<lparr>exit_code = 1, final_stdout = out_stdout st,
               final_stderr = out_stderr st @ [msg_non_positive],
               final_calls = calls st, grabbed = None\<rparr>"
    using assms by (simp add: main_def)
  have 3: "0 < reg_width (region st) \<and> 0 < reg_height (region st)
      \<and> grab_screenshot env (region st) \<longrightarrow>
      (\<exists>out. main env (Some mgr) argv = Inr out \<and> grabbed out = Some (region st))"
    using assms by (simp add: main_def)
  have 4: "\<forall>out r. main env (Some mgr) argv = Inr out \<and> grabbed out = Some r \<longrightarrow>
      0 < reg_width r \<and> 0 < reg_height r"
    using main_grabbed_positive by blast
  have 5: "msg_non_positive \<notin> {msg_canceled, msg_not_implemented, msg_invalid_argument,
      msg_other}"
    using msg_non_positive_distinct by simp
  from 1 2 3 4 5 show ?thesis by blast
qed

theorem final_validation_witness:
  "parse_options env1 [''shot'', ''-i''] two_monitors
     = Inr \<lparr>error = 0, output_path = None,
            region = \<lparr>reg_x = 640, reg_y = 300, reg_width = 0, reg_height = 0\<rparr>,
            region_result = 0, out_stdout = [], out_stderr = [],
            calls = [CallFromAllMonitors,
                     CallInteractively
                       \<lparr>reg_x = 640, reg_y = 300, reg_width = 640, reg_height = 480\<rparr>
                       \<lparr>reg_x = 0, reg_y = 0, reg_width = 3200, reg_height = 1080\<rparr>]\<rparr>
   \<and> main env1 (Some two_monitors) [''shot'', ''-i'']
       = Inr \<lparr>exit_code = 1, final_stdout = [],
              final_stderr =
                [''Cannot take screenshot with non-positive width or height.\<newline>''],
              final_calls =
                [CallFromAllMonitors,
                 CallInteractively
                   \<lparr>reg_x = 640, reg_y = 300, reg_width = 640, reg_height = 480\<rparr>
                   \<lparr>reg_x = 0, reg_y = 0, reg_width = 3200, reg_height = 1080\<rparr>],
              grabbed = None\<rparr>
   \<and> parse_options env0 [''shot''] two_monitors
       = Inr \<lparr>error = 0, output_path = None,
              region = \<lparr>reg_x = 0, reg_y = 0, reg_width = 3200, reg_height = 1080\<rparr>,
              region_result = 0, out_stdout = [], out_stderr = [],
              calls = [CallFromAllMonitors]\<rparr>
   \<and> grab_screenshot env0 \<lparr>reg_x = 0, reg_y = 0, reg_width = 3200, reg_height = 1080\<rparr>
   \<and> (\<exists>out. main env0 (Some two_monitors) [''shot''] = Inr out
          \<and> grabbed out
              = Some \<lparr>reg_x = 0, reg_y = 0, reg_width = 3200, reg_height = 1080\<rparr>)"
proof -
  have p1: "parse_options env1 [''shot'', ''-i''] two_monitors
     = Inr \<lparr>error = 0, output_path = None,
            region = \<lparr>reg_x = 640, reg_y = 300, reg_width = 0, reg_height = 0\<rparr>,
            region_result = 0, out_stdout = [], out_stderr = [],
            calls = [CallFromAllMonitors,
                     CallInteractively
                       \<lparr>reg_x = 640, reg_y = 300, reg_width = 640, reg_height = 480\<rparr>
                       \<lparr>reg_x = 0, reg_y = 0, reg_width = 3200, reg_height = 1080\<rparr>]\<rparr>"
    by code_simp
  have p2: "parse_options env0 [''shot''] two_monitors
       = Inr \<lparr>error = 0, output_path = None,
              region = \<lparr>reg_x = 0, reg_y = 0, reg_width = 3200, reg_height = 1080\<rparr>,
              region_result = 0, out_stdout = [], out_stderr = [],
              calls = [CallFromAllMonitors]\<rparr>"
    by code_simp
  have g: "grab_screenshot env0 \<lparr>reg_x = 0, reg_y = 0, reg_width = 3200, reg_height = 1080\<rparr>"
    by (simp add: env0_def)
  from final_validation [OF p1] have m1: "main env1 (Some two_monitors) [''shot'', ''-i'']
       = Inr \<lparr>exit_code = 1, final_stdout = [],
              final_stderr =
                [''Cannot take screenshot with non-positive width or height.\<newline>''],
              final_calls =
                [CallFromAllMonitors,
                 CallInteractively
                   \<lparr>reg_x = 640, reg_y = 300, reg_width = 640, reg_height = 480\<rparr>
                   \<lparr>reg_x = 0, reg_y = 0, reg_width = 3200, reg_height = 1080\<rparr>],
              grabbed = None\<rparr>"
    by (simp add: msg_non_positive_def)
  from final_validation [OF p2] g
  have m2: "\<exists>out. main env0 (Some two_monitors) [''shot''] = Inr out
          \<and> grabbed out
              = Some \<lparr>reg_x = 0, reg_y = 0, reg_width = 3200, reg_height = 1080\<rparr>"
    by simp
  from p1 p2 g m1 m2 show ?thesis by blast
qed

section \<open>Failures of the region resolution\<close>

lemma report_region_result_failure:
  assumes "region_result st \<noteq> 0"
    and "distinct [ERR_CANCELED env, ERR_NOT_IMPLEMENTED env, ERR_INVALID_ARGUMENT env,
                   ERR_OTHER env]"
  shows "error (report_region_result env argv st) = 1"
    and "region_result st = ERR_CANCELED env \<Longrightarrow>
           out_stderr (report_region_result env argv st) = out_stderr st @ [msg_canceled]"
    and "region_result st = ERR_NOT_IMPLEMENTED env \<Longrightarrow>
           out_stderr (report_region_result env argv st)
             = out_stderr st @ [msg_not_implemented]"
    and "region_result st = ERR_INVALID_ARGUMENT env \<Longrightarrow>
           out_stderr (report_region_result env argv st)
             = out_stderr st @ [msg_invalid_argument, usage_hint (program_name argv)]"
    and "region_result st = ERR_OTHER env \<Longrightarrow>
           out_stderr (report_region_result env argv st) = out_stderr st @ [msg_other]"
  using assms by (auto simp: report_region_result_def)

lemma main_parse_error:
  assumes "parse_options env argv mgr = Inr st" and "error st \<noteq> 0"
  shows "main env (Some mgr) argv
           = Inr \<lparr>exit_code = 1, final_stdout = out_stdout st, final_stderr = out_stderr st,
                  final_calls = calls st, grabbed = None\<rparr>"
  using assms by (simp add: main_def)

lemma main_non_positive:
  assumes "parse_options env argv mgr = Inr st" and "error st = 0"
    and "reg_width (region st) \<le> 0 \<or> reg_height (region st) \<le> 0"
  shows "main env (Some mgr) argv
           = Inr \<lparr>exit_code = 1, final_stdout = out_stdout st,
                  final_stderr = out_stderr st @ [msg_non_positive],
                  final_calls = calls st, grabbed = None\<rparr>"
  using assms by (simp add: main_def)

text \<open>
  Claim C5: when the resolver of the last processed mode option fails with a kind \<open>k\<close>
  (not 0 and not the sentinel \<open>-1\<close>), \<open>parse_options\<close> ends with that same \<open>k\<close>, calls no
  further resolver, prints the message of that kind last and sets \<open>options.error\<close>, and
  \<open>main\<close> exits with code 1 without capturing; a region that fails the validation in
  \<open>main\<close> also ends the run with exit code 1 and its own message.
\<close>

theorem resolution_failure_exits_1:
  assumes "monitors mgr \<noteq> []"
    and "processed argv = pre @ (c, optarg) # post"
    and "is_mode c"
    and "\<forall>e\<in>set post. \<not> is_mode (fst e)"
    and "distinct [ERR_CANCELED env, ERR_NOT_IMPLEMENTED env, ERR_INVALID_ARGUMENT env,
                   ERR_OTHER env]"
  shows "\<exists>st1 st2 st.
           run_events env mgr argv (initial_state mgr) pre = Inr st1
         \<and> switch_body env mgr argv c optarg st1 = Inr st2
         \<and> parse_options env argv mgr = Inr st
         \<and> (region_result st2 \<noteq> 0 \<and> region_result st2 \<noteq> - 1 \<longrightarrow>
               region_result st = region_result st2 \<and> calls st = calls st2 \<and> error st = 1
             \<and> main env (Some mgr) argv
                 = Inr \<lparr>exit_code = 1, final_stdout = out_stdout st,
                        final_stderr = out_stderr st, final_calls = calls st2,
                        grabbed = None\<rparr>
             \<and> (region_result st2 = ERR_CANCELED env \<longrightarrow>
                  (\<exists>ms. out_stderr st = ms @ [msg_canceled]))
             \<and> (region_result st2 = ERR_NOT_IMPLEMENTED env \<longrightarrow>
                  (\<exists>ms. out_stderr st = ms @ [msg_not_implemented]))
             \<and> (region_result st2 = ERR_INVALID_ARGUMENT env \<longrightarrow>
                  (\<exists>ms. out_stderr st
                          = ms @ [msg_invalid_argument, usage_hint (program_name argv)]))
             \<and> (region_result st2 = ERR_OTHER env \<longrightarrow>
                  (\<exists>ms. out_stderr st = ms @ [msg_other])))
         \<and> (error st = 0
               \<and> (reg_width (region st) \<le> 0 \<or> reg_height (region st) \<le> 0) \<longrightarrow>
               main env (Some mgr) argv
                 = Inr \<lparr>exit_code = 1, final_stdout = out_stdout st,
                        final_stderr = out_stderr st @ [msg_non_positive],
                        final_calls = calls st, grabbed = None\<rparr>)"
proof -
  from loop_last_mode [OF assms(1-4) initial_state_simps(1), of env]
  obtain st1 st2 st3 where
    1: "run_events env mgr argv (initial_state mgr) pre = Inr st1"
    and 2: "switch_body env mgr argv c optarg st1 = Inr st2"
    and 3: "options_loop env mgr argv (initial_state mgr) (initial_getopt argv) = Inr st3"
    and k: "region_result st3 = region_result st2" "calls st3 = calls st2"
    by blast
  define st where "st = report_region_result env argv (fallback_region env mgr st3)"
  have p: "parse_options env argv mgr = Inr st"
    unfolding st_def by (rule parse_options_loop [OF assms(1) 3])
  have v: "error st = 0
      \<and> (reg_width (region st) \<le> 0 \<or> reg_height (region st) \<le> 0) \<longrightarrow>
      main env (Some mgr) argv
        = Inr \<lparr>exit_code = 1, final_stdout = out_stdout st,
               final_stderr = out_stderr st @ [msg_non_positive],
               final_calls = calls st, grabbed = None\<rparr>"
    using main_non_positive [OF p] by blast
  have f: "region_result st = region_result st2 \<and> calls st = calls st2 \<and> error st = 1
      \<and> main env (Some mgr) argv
          = Inr \<lparr>exit_code = 1, final_stdout = out_stdout st,
                 final_stderr = out_stderr st, final_calls = calls st2, grabbed = None\<rparr>
      \<and> (region_result st2 = ERR_CANCELED env \<longrightarrow>
           (\<exists>ms. out_stderr st = ms @ [msg_canceled]))
      \<and> (region_result st2 = ERR_NOT_IMPLEMENTED env \<longrightarrow>
           (\<exists>ms. out_stderr st = ms @ [msg_not_implemented]))
      \<and> (region_result st2 = ERR_INVALID_ARGUMENT env \<longrightarrow>
           (\<exists>ms. out_stderr st
                   = ms @ [msg_invalid_argument, usage_hint (program_name argv)]))
      \<and> (region_result st2 = ERR_OTHER env \<longrightarrow>
           (\<exists>ms. out_stderr st = ms @ [msg_other]))"
    if nz: "region_result st2 \<noteq> 0" and nu: "region_result st2 \<noteq> - 1"
  proof -
    have fb: "fallback_region env mgr st3 = st3"
      using nu k(1) by (simp add: fallback_region_chosen)
    have st': "st = report_region_result env argv st3" by (simp add: st_def fb)
    have nz3: "region_result st3 \<noteq> 0" using nz k(1) by simp
    note r = report_region_result_failure [OF nz3 assms(5), of argv, folded st']
    have a: "region_result st = region_result st2" "calls st = calls st2"
      by (simp_all add: st' report_region_result_keeps k)
    have e: "error st = 1" by (rule r(1))
    then have "error st \<noteq> 0" by simp
    from main_parse_error [OF p this] a(2)
    have m: "main env (Some mgr) argv
          = Inr \<lparr>exit_code = 1, final_stdout = out_stdout st,
                 final_stderr = out_stderr st, final_calls = calls st2, grabbed = None\<rparr>"
      by simp
    from a e m r(2-5) k(1) show ?thesis by auto
  qed
  from 1 2 p v f show ?thesis by blast
qed


theorem resolution_failure_exits_1_witness:
  "(\<exists>st. parse_options env0 [''shot'', ''-i''] two_monitors = Inr st
        \<and> region_result st = ERR_CANCELED env0 \<and> error st = 1
        \<and> (\<exists>ms. out_stderr st = ms @ [msg_canceled])
        \<and> main env0 (Some two_monitors) [''shot'', ''-i'']
            = Inr \<lparr>exit_code = 1, final_stdout = out_stdout st,
                   final_stderr = out_stderr st, final_calls = calls st, grabbed = None\<rparr>)
   \<and> (\<exists>st. parse_options env0 [''shot'', ''-w''] two_monitors = Inr st
        \<and> region_result st = ERR_NOT_IMPLEMENTED env0 \<and> error st = 1
        \<and> (\<exists>ms. out_stderr st = ms @ [msg_not_implemented])
        \<and> main env0 (Some two_monitors) [''shot'', ''-w'']
            = Inr \<lparr>exit_code = 1, final_stdout = out_stdout st,
                   final_stderr = out_stderr st, final_calls = calls st, grabbed = None\<rparr>)
   \<and> (\<exists>st. parse_options env0 [''shot'', ''--monitor'', ''5''] two_monitors = Inr st
        \<and> region_result st = ERR_INVALID_ARGUMENT env0 \<and> error st = 1
        \<and> (\<exists>ms. out_stderr st = ms @ [msg_invalid_argument, usage_hint ''shot''])
        \<and> main env0 (Some two_monitors) [''shot'', ''--monitor'', ''5'']
            = Inr \<lparr>exit_code = 1, final_stdout = out_stdout st,
                   final_stderr = out_stderr st, final_calls = calls st, grabbed = None\<rparr>)
   \<and> (\<exists>st. parse_options env0 [''shot'', ''-r'', ''bad''] two_monitors = Inr st
        \<and> region_result st = ERR_OTHER env0 \<and> error st = 1
        \<and> (\<exists>ms. out_stderr st = ms @ [msg_other])
        \<and> main env0 (Some two_monitors) [''shot'', ''-r'', ''bad'']
            = Inr \<lparr>exit_code = 1, final_stdout = out_stdout st,
                   final_stderr = out_stderr st, final_calls = calls st, grabbed = None\<rparr>)
   \<and> main env1 (Some two_monitors) [''shot'', ''-i'']
       = Inr \<lparr>exit_code = 1, final_stdout = [], final_stderr = [msg_non_positive],
              final_calls =
                [CallFromAllMonitors,
                 CallInteractively
                   \<lparr>reg_x = 640, reg_y = 300, reg_width = 640, reg_height = 480\<rparr>
                   \<lparr>reg_x = 0, reg_y = 0, reg_width = 3200, reg_height = 1080\<rparr>],
              grabbed = None\<rparr>"
proof -
  have m: "monitors two_monitors \<noteq> []" by (simp add: two_monitors_def)
  have d0: "distinct [ERR_CANCELED env0, ERR_NOT_IMPLEMENTED env0, ERR_INVALID_ARGUMENT env0,
                      ERR_OTHER env0]"
    by (simp add: env0_def)
  have d1: "distinct [ERR_CANCELED env1, ERR_NOT_IMPLEMENTED env1, ERR_INVALID_ARGUMENT env1,
                      ERR_OTHER env1]"
    by (simp add: env1_def env0_def)
  have run: "\<exists>st. parse_options env0 argv two_monitors = Inr st
        \<and> region_result st = k \<and> error st = 1
        \<and> (k = ERR_CANCELED env0 \<longrightarrow> (\<exists>ms. out_stderr st = ms @ [msg_canceled]))
        \<and> (k = ERR_NOT_IMPLEMENTED env0 \<longrightarrow> (\<exists>ms. out_stderr st = ms @ [msg_not_implemented]))
        \<and> (k = ERR_INVALID_ARGUMENT env0 \<longrightarrow>
             (\<exists>ms. out_stderr st = ms @ [msg_invalid_argument, usage_hint (program_name argv)]))
        \<and> (k = ERR_OTHER env0 \<longrightarrow> (\<exists>ms. out_stderr st = ms @ [msg_other]))
        \<and> main env0 (Some two_monitors) argv
            = Inr \<lparr>exit_code = 1, final_stdout = out_stdout st,
                   final_stderr = out_stderr st, final_calls = calls st, grabbed = None\<rparr>"
    if p: "processed argv = [] @ (c, optarg) # []" and c: "is_mode c"
      and sw: "\<And>st2. switch_body env0 two_monitors argv c optarg (initial_state two_monitors)
                      = Inr st2 \<Longrightarrow> region_result st2 = k"
      and k: "k \<noteq> 0" "k \<noteq> - 1"
    for argv c optarg k
  proof -
    have post: "\<forall>e\<in>set []. \<not> is_mode (fst e)" by simp
    from resolution_failure_exits_1 [OF m p c post d0]
    obtain st1 st2 st where
      1: "run_events env0 two_monitors argv (initial_state two_monitors) [] = Inr st1"
      and 2: "switch_body env0 two_monitors argv c optarg st1 = Inr st2"
      and 3: "parse_options env0 argv two_monitors = Inr st"
      and 4: "region_result st2 \<noteq> 0 \<and> region_result st2 \<noteq> - 1 \<longrightarrow>
               region_result st = region_result st2 \<and> calls st = calls st2 \<and> error st = 1
             \<and> main env0 (Some two_monitors) argv
                 = Inr \<lparr>exit_code = 1, final_stdout = out_stdout st,
                        final_stderr = out_stderr st, final_calls = calls st2,
                        grabbed = None\<rparr>
             \<and> (region_result st2 = ERR_CANCELED env0 \<longrightarrow>
                  (\<exists>ms. out_stderr st = ms @ [msg_canceled]))
             \<and> (region_result st2 = ERR_NOT_IMPLEMENTED env0 \<longrightarrow>
                  (\<exists>ms. out_stderr st = ms @ [msg_not_implemented]))
             \<and> (region_result st2 = ERR_INVALID_ARGUMENT env0 \<longrightarrow>
                  (\<exists>ms. out_stderr st
                          = ms @ [msg_invalid_argument, usage_hint (program_name argv)]))
             \<and> (region_result st2 = ERR_OTHER env0 \<longrightarrow>
                  (\<exists>ms. out_stderr st = ms @ [msg_other]))"
      by blast
    from 1 have "st1 = initial_state two_monitors" by simp
    with 2 sw have "region_result st2 = k" by simp
    with 3 4 k show ?thesis by auto
  qed
  have pi: "processed [''shot'', ''-i''] = [] @ (ord CHR ''i'', None) # []" by code_simp
  have pw: "processed [''shot'', ''-w''] = [] @ (ord CHR ''w'', None) # []" by code_simp
  have pm: "processed [''shot'', ''--monitor'', ''5''] = [] @ (ord CHR ''m'', Some ''5'') # []"
    by code_simp
  have pr: "processed [''shot'', ''-r'', ''bad''] = [] @ (ord CHR ''r'', Some ''bad'') # []"
    by code_simp
  have a5: "atoi ''5'' = 5" by code_simp
  have ri: "\<exists>st. parse_options env0 [''shot'', ''-i''] two_monitors = Inr st
        \<and> region_result st = ERR_CANCELED env0 \<and> error st = 1
        \<and> (\<exists>ms. out_stderr st = ms @ [msg_canceled])
        \<and> main env0 (Some two_monitors) [''shot'', ''-i'']
            = Inr \<lparr>exit_code = 1, final_stdout = out_stdout st,
                   final_stderr = out_stderr st, final_calls = calls st, grabbed = None\<rparr>"
    using run [OF pi, of "ERR_CANCELED env0"]
    by (auto simp: is_mode_def switch_body_def env0_def
        update_region_from_all_monitors_def two_monitors_def)
  have rw: "\<exists>st. parse_options env0 [''shot'', ''-w''] two_monitors = Inr st
        \<and> region_result st = ERR_NOT_IMPLEMENTED env0 \<and> error st = 1
        \<and> (\<exists>ms. out_stderr st = ms @ [msg_not_implemented])
        \<and> main env0 (Some two_monitors) [''shot'', ''-w'']
            = Inr \<lparr>exit_code = 1, final_stdout = out_stdout st,
                   final_stderr = out_stderr st, final_calls = calls st, grabbed = None\<rparr>"
    using run [OF pw, of "ERR_NOT_IMPLEMENTED env0"]
    by (auto simp: is_mode_def switch_body_def env0_def)
  have rm: "\<exists>st. parse_options env0 [''shot'', ''--monitor'', ''5''] two_monitors = Inr st
        \<and> region_result st = ERR_INVALID_ARGUMENT env0 \<and> error st = 1
        \<and> (\<exists>ms. out_stderr st = ms @ [msg_invalid_argument, usage_hint ''shot''])
        \<and> main env0 (Some two_monitors) [''shot'', ''--monitor'', ''5'']
            = Inr \<lparr>exit_code = 1, final_stdout = out_stdout st,
                   final_stderr = out_stderr st, final_calls = calls st, grabbed = None\<rparr>"
    using run [OF pm, of "ERR_INVALID_ARGUMENT env0"]
    by (auto simp: is_mode_def switch_body_def env0_def a5 monitor_count_def
        two_monitors_def program_name_def)
  have rr: "\<exists>st. parse_options env0 [''shot'', ''-r'', ''bad''] two_monitors = Inr st
        \<and> region_result st = ERR_OTHER env0 \<and> error st = 1
        \<and> (\<exists>ms. out_stderr st = ms @ [msg_other])
        \<and> main env0 (Some two_monitors) [''shot'', ''-r'', ''bad'']
            = Inr \<lparr>exit_code = 1, final_stdout = out_stdout st,
                   final_stderr = out_stderr st, final_calls = calls st, grabbed = None\<rparr>"
    using run [OF pr, of "ERR_OTHER env0"]
    by (auto simp: is_mode_def switch_body_def env0_def)
  have p1: "parse_options env1 [''shot'', ''-i''] two_monitors
     = Inr \<lparr>error = 0, output_path = None,
            region = \<lparr>reg_x = 640, reg_y = 300, reg_width = 0, reg_height = 0\<rparr>,
            region_result = 0, out_stdout = [], out_stderr = [],
            calls = [CallFromAllMonitors,
                     CallInteractively
                       \<lparr>reg_x = 640, reg_y = 300, reg_width = 640, reg_height = 480\<rparr>
                       \<lparr>reg_x = 0, reg_y = 0, reg_width = 3200, reg_height = 1080\<rparr>]\<rparr>"
    by code_simp
  have post: "\<forall>e\<in>set []. \<not> is_mode (fst e)" by simp
  have ci: "is_mode (ord CHR ''i'')" by (simp add: is_mode_def)
  from resolution_failure_exits_1 [OF m pi ci post d1] p1
  have v: "main env1 (Some two_monitors) [''shot'', ''-i'']
       = Inr \<lparr>exit_code = 1, final_stdout = [], final_stderr = [msg_non_positive],
              final_calls =
                [CallFromAllMonitors,
                 CallInteractively
                   \<lparr>reg_x = 640, reg_y = 300, reg_width = 640, reg_height = 480\<rparr>
                   \<lparr>reg_x = 0, reg_y = 0, reg_width = 3200, reg_height = 1080\<rparr>],
              grabbed = None\<rparr>"
    by auto
  from ri rw rm rr v show ?thesis by blast
qed

section \<open>The interactive mode\<close>

lemma switch_body_working_area:
  assumes mgr: "monitors mgr = m # ms"
    and a: "c = ord CHR ''m'' \<longrightarrow> optarg \<noteq> None"
    and inv: "working_area_ok (desktop_bounds m ms) st"
  shows "\<exists>st'. switch_body env mgr argv c optarg st = Inr st'
           \<and> working_area_ok (desktop_bounds m ms) st'"
proof -
  have ne: "monitors mgr \<noteq> []" using mgr by simp
  from switch_body_no_abort [OF ne a, of env argv st]
  obtain st' where s: "switch_body env mgr argv c optarg st = Inr st'" by blast
  show ?thesis
  proof (cases "is_mode c")
    case False
    from switch_body_non_mode [OF False, of env mgr argv optarg st] s inv
    show ?thesis by (auto simp: working_area_ok_def)
  next
    case True
    then consider "c = 100" | "c = 109" | "c = 114" | "c = 105" | "c = 119"
      by (auto simp: is_mode_def)
    then have "working_area_ok (desktop_bounds m ms) st'"
    proof cases
      case 1
      with s inv show ?thesis
        by (auto simp: switch_body_def working_area_ok_def split: prod.splits)
    next
      case 2
      with s inv show ?thesis
        by (auto simp: switch_body_def working_area_ok_def Let_def
            split: prod.splits option.splits if_splits)
    next
      case 3
      with s inv show ?thesis
        by (auto simp: switch_body_def working_area_ok_def split: prod.splits)
    next
      case 4
      with s inv mgr show ?thesis
        by (auto simp: switch_body_def working_area_ok_def
            update_region_from_all_monitors_def split: prod.splits if_splits)
    next
      case 5
      with s inv show ?thesis
        by (auto simp: switch_body_def working_area_ok_def split: prod.splits)
    qed
    with s show ?thesis by blast
  qed
qed

lemma run_events_working_area:
  assumes mgr: "monitors mgr = m # ms"
    and a: "\<And>c a. (c, a) \<in> set evs \<Longrightarrow> c = ord CHR ''m'' \<longrightarrow> a \<noteq> None"
    and inv: "working_area_ok (desktop_bounds m ms) st"
  shows "\<exists>st'. run_events env mgr argv st evs = Inr st'
           \<and> working_area_ok (desktop_bounds m ms) st'"
  using a inv
proof (induction evs arbitrary: st)
  case Nil
  then show ?case by simp
next
  case (Cons e evs)
  obtain c o' where e: "e = (c, o')" by (cases e)
  show ?case
  proof (cases "error st = 0")
    case False
    with Cons.prems(2) e show ?thesis by simp
  next
    case True
    from Cons.prems(1) [of c o'] e have "c = ord CHR ''m'' \<longrightarrow> o' \<noteq> None" by simp
    from switch_body_working_area [OF mgr this Cons.prems(2), of env argv]
    obtain st1 where s: "switch_body env mgr argv c o' st = Inr st1"
      "working_area_ok (desktop_bounds m ms) st1" by blast
    from Cons.IH [OF _ s(2)] Cons.prems(1)
    obtain st' where "run_events env mgr argv st1 evs = Inr st'"
      "working_area_ok (desktop_bounds m ms) st'" by auto
    with s True e show ?thesis by simp
  qed
qed

lemma parse_options_working_area:
  assumes mgr: "monitors mgr = m # ms"
  shows "\<exists>st. parse_options env argv mgr = Inr st
           \<and> working_area_ok (desktop_bounds m ms) st"
proof -
  have i: "working_area_ok (desktop_bounds m ms) (initial_state mgr)"
    by (simp add: working_area_ok_def initial_state_simps)
  from run_events_working_area [OF mgr _ i, of "processed argv" env argv] processed_m
  obtain st1 where l: "run_events env mgr argv (initial_state mgr) (processed argv) = Inr st1"
    and w: "working_area_ok (desktop_bounds m ms) st1" by blast
  have ne: "monitors mgr \<noteq> []" using mgr by simp
  from l have "options_loop env mgr argv (initial_state mgr) (initial_getopt argv) = Inr st1"
    by (simp add: options_loop_processed)
  from parse_options_loop [OF ne this]
  have p: "parse_options env argv mgr
      = Inr (report_region_result env argv (fallback_region env mgr st1))" .
  have "working_area_ok (desktop_bounds m ms)
      (report_region_result env argv (fallback_region env mgr st1))"
    using w
    by (auto simp: working_area_ok_def report_region_result_keeps fallback_region_def
        split: prod.splits)
  with p show ?thesis by blast
qed

text \<open>
  Claim C6: with at least one monitor, \<open>update_region_from_all_monitors\<close> succeeds and
  yields the desktop bounds; the case of \<open>-i\<close> calls the interactive selector with exactly
  that rectangle as its working area and takes the selector's outcome; and every call of
  the interactive selector in a run of \<open>parse_options\<close>, which never ends in a failed
  assertion, has the desktop bounds as its working area.
\<close>

theorem interactive_working_area:
  assumes "monitors mgr = m # ms"
  shows "update_region_from_all_monitors env r mgr = (0, desktop_bounds m ms)
       \<and> (\<exists>st'. switch_body env mgr argv (ord CHR ''i'') optarg st = Inr st'
              \<and> calls st' = calls st @ [CallFromAllMonitors,
                                         CallInteractively (region st) (desktop_bounds m ms)]
              \<and> (region_result st', region st')
                  = update_region_interactively env (region st) (desktop_bounds m ms))
       \<and> (\<exists>st. parse_options env argv mgr = Inr st
              \<and> (\<forall>r w. CallInteractively r w \<in> set (calls st)
                    \<longrightarrow> w = desktop_bounds m ms))"
proof -
  have 1: "update_region_from_all_monitors env r mgr = (0, desktop_bounds m ms)" for r
    by (simp add: update_region_from_all_monitors_def assms)
  have 2: "\<exists>st'. switch_body env mgr argv (ord CHR ''i'') optarg st = Inr st'
              \<and> calls st' = calls st @ [CallFromAllMonitors,
                                         CallInteractively (region st) (desktop_bounds m ms)]
              \<and> (region_result st', region st')
                  = update_region_interactively env (region st) (desktop_bounds m ms)"
    by (simp add: switch_body_def 1 split: prod.split)
  from parse_options_working_area [OF assms, of env argv]
  have 3: "\<exists>st. parse_options env argv mgr = Inr st
              \<and> (\<forall>r w. CallInteractively r w \<in> set (calls st)
                    \<longrightarrow> w = desktop_bounds m ms)"
    by (simp add: working_area_ok_def)
  from 1 2 3 show ?thesis by blast
qed

theorem interactive_working_area_witness:
  "monitors two_monitors
     = \<lparr>mon_x = 0, mon_y = 0, mon_width = 1920, mon_height = 1080, mon_primary = True\<rparr>
       # [\<lparr>mon_x = 1920, mon_y = 0, mon_width = 1280, mon_height = 1024,
           mon_primary = False\<rparr>]
   \<and> update_region_from_all_monitors env0 (indeterminate_region env0) two_monitors
       = (0, \<lparr>reg_x = 0, reg_y = 0, reg_width = 3200, reg_height = 1080\<rparr>)
   \<and> (\<exists>st r w. parse_options env0 [''shot'', ''-i''] two_monitors = Inr st
          \<and> CallInteractively r w \<in> set (calls st)
          \<and> w = \<lparr>reg_x = 0, reg_y = 0, reg_width = 3200, reg_height = 1080\<rparr>)"
proof -
  let ?m0 = "\<lparr>mon_x = 0, mon_y = 0, mon_width = 1920, mon_height = 1080, mon_primary = True\<rparr>"
  let ?m1 = "\<lparr>mon_x = 1920, mon_y = 0, mon_width = 1280, mon_height = 1024,
              mon_primary = False\<rparr>"
  have m: "monitors two_monitors = ?m0 # [?m1]" by (simp add: two_monitors_def)
  have d: "desktop_bounds ?m0 [?m1]
      = \<lparr>reg_x = 0, reg_y = 0, reg_width = 3200, reg_height = 1080\<rparr>"
    by (simp add: desktop_bounds_def)
  note t = interactive_working_area
    [OF m, of env0 "indeterminate_region env0" "[''shot'', ''-i'']" None
      "initial_state two_monitors"]
  from t have u: "update_region_from_all_monitors env0 (indeterminate_region env0) two_monitors
       = (0, \<lparr>reg_x = 0, reg_y = 0, reg_width = 3200, reg_height = 1080\<rparr>)"
    by (simp add: d)
  from t obtain st where p: "parse_options env0 [''shot'', ''-i''] two_monitors = Inr st"
    and w: "\<forall>r w. CallInteractively r w \<in> set (calls st) \<longrightarrow> w = desktop_bounds ?m0 [?m1]"
    by blast
  have "map_sum id calls (parse_options env0 [''shot'', ''-i''] two_monitors)
      = Inr [CallFromAllMonitors,
             CallInteractively
               \<lparr>reg_x = 640, reg_y = 300, reg_width = 640, reg_height = 480\<rparr>
               \<lparr>reg_x = 0, reg_y = 0, reg_width = 3200, reg_height = 1080\<rparr>]"
    by code_simp
  with p have "CallInteractively
               \<lparr>reg_x = 640, reg_y = 300, reg_width = 640, reg_height = 480\<rparr>
               \<lparr>reg_x = 0, reg_y = 0, reg_width = 3200, reg_height = 1080\<rparr>
             \<in> set (calls st)" by simp
  with p have "\<exists>st r w. parse_options env0 [''shot'', ''-i''] two_monitors = Inr st
          \<and> CallInteractively r w \<in> set (calls st)
          \<and> w = \<lparr>reg_x = 0, reg_y = 0, reg_width = 3200, reg_height = 1080\<rparr>"
    by blast
  with m u show ?thesis by blast
qed

section \<open>The short option for the monitor, and help\<close>

text \<open>
  Claim C8 does not hold on the code: \<open>short_opt\<close> has no \<open>m:\<close>, so \<open>getopt_long\<close>
  returns \<open>'?'\<close> for \<open>-m\<close>, while \<open>--monitor\<close> returns \<open>'m'\<close> with its argument.  With two
  monitors, \<open>-m 1\<close> ends in \<open>options.error = 1\<close> with the usage hint and no monitor
  resolution, and \<open>--monitor 1\<close> selects monitor 1.
\<close>

theorem short_m_rejected:
  "fst (getopt_long short_opt long_opt
          \<lparr>optargs = (CHR ''-'' # CHR ''m'' # cs) # rest, nextchar = []\<rparr>) = ord CHR ''?''
   \<and> getopt_long short_opt long_opt \<lparr>optargs = ''--monitor'' # s # rest, nextchar = []\<rparr>
       = (ord CHR ''m'', Some s, \<lparr>optargs = rest, nextchar = []\<rparr>)
   \<and> parse_options env0 [''shot'', ''-m'', ''1''] two_monitors
       = Inr \<lparr>error = 1, output_path = None,
              region = \<lparr>reg_x = 0, reg_y = 0, reg_width = 3200, reg_height = 1080\<rparr>,
              region_result = 0, out_stdout = [], out_stderr = [usage_hint ''shot''],
              calls = [CallFromAllMonitors]\<rparr>
   \<and> parse_options env0 [''shot'', ''--monitor'', ''1''] two_monitors
       = Inr \<lparr>error = 0, output_path = None,
              region = \<lparr>reg_x = 1920, reg_y = 0, reg_width = 1280, reg_height = 1024\<rparr>,
              region_result = 0, out_stdout = [], out_stderr = [],
              calls = [CallFromMonitor
                         \<lparr>mon_x = 1920, mon_y = 0, mon_width = 1280, mon_height = 1024,
                          mon_primary = False\<rparr>]\<rparr>"
proof -
  have 1: "fst (getopt_long short_opt long_opt
          \<lparr>optargs = (CHR ''-'' # CHR ''m'' # cs) # rest, nextchar = []\<rparr>) = ord CHR ''?''"
    by (cases cs)
       (simp_all add: getopt_long_def is_option_arg_def short_option_def short_opt_def)
  have l: "lookup_long long_opt ''monitor''
      = Some \<lparr>lo_name = ''monitor'', lo_has_arg = required_argument, lo_val = ord CHR ''m''\<rparr>"
    by (simp add: lookup_long_def long_opt_def)
  have 2: "getopt_long short_opt long_opt \<lparr>optargs = ''--monitor'' # s # rest, nextchar = []\<rparr>
       = (ord CHR ''m'', Some s, \<lparr>optargs = rest, nextchar = []\<rparr>)"
    by (simp add: getopt_long_def is_option_arg_def long_option_step_def l)
  have 3: "parse_options env0 [''shot'', ''-m'', ''1''] two_monitors
       = Inr \<lparr>error = 1, output_path = None,
              region = \<lparr>reg_x = 0, reg_y = 0, reg_width = 3200, reg_height = 1080\<rparr>,
              region_result = 0, out_stdout = [], out_stderr = [usage_hint ''shot''],
              calls = [CallFromAllMonitors]\<rparr>"
    by code_simp
  have 4: "parse_options env0 [''shot'', ''--monitor'', ''1''] two_monitors
       = Inr \<lparr>error = 0, output_path = None,
              region = \<lparr>reg_x = 1920, reg_y = 0, reg_width = 1280, reg_height = 1024\<rparr>,
              region_result = 0, out_stdout = [], out_stderr = [],
              calls = [CallFromMonitor
                         \<lparr>mon_x = 1920, mon_y = 0, mon_width = 1280, mon_height = 1024,
                          mon_primary = False\<rparr>]\<rparr>"
    by code_simp
  from 1 2 3 4 show ?thesis by blast
qed

lemma switch_body_help:
  "switch_body env mgr argv 104 optarg st
     = Inr (st\<lparr>out_stdout := out_stdout st @ [usage_text], error := - 1\<rparr>)"
  by (simp add: switch_body_def)

text \<open>
  Claim C9, as the code has it: when \<open>-h\<close> is processed, the usage text is printed and
  the loop stops there, the run ends with exit code 1 and without a capture; the resolvers
  of the mode options before \<open>-h\<close> have run, and when there was none the fallback to all
  monitors still runs after the loop.
\<close>

theorem help_stops_processing:
  assumes "monitors mgr \<noteq> []"
    and "processed argv = pre @ [(ord CHR ''h'', optarg)]"
  shows "\<exists>st1 st.
           run_events env mgr argv (initial_state mgr) pre = Inr st1
         \<and> parse_options env argv mgr = Inr st
         \<and> out_stdout st = out_stdout st1 @ [usage_text]
         \<and> calls st
             = calls st1 @ (if region_result st1 = - 1 then [CallFromAllMonitors] else [])
         \<and> error st \<noteq> 0
         \<and> main env (Some mgr) argv
             = Inr \<lparr>exit_code = 1, final_stdout = out_stdout st,
                    final_stderr = out_stderr st, final_calls = calls st, grabbed = None\<rparr>"
proof -
  obtain m ms where mm: "monitors mgr = m # ms" using assms(1) by (cases "monitors mgr") auto
  have pre_ok: "\<not> is_stop c' \<and> (c' = ord CHR ''m'' \<longrightarrow> a' \<noteq> None)"
    if "(c', a') \<in> set pre" for c' a'
  proof
    from consumed_prefix_non_stop [of "getopt_events (initial_getopt argv)" pre
      "(ord CHR ''h'', optarg)" "[]" "(c', a')"] assms(2) that
    show "\<not> is_stop c'" by (simp add: processed_def)
    from that assms(2) have "(c', a') \<in> set (processed argv)" by simp
    then show "c' = ord CHR ''m'' \<longrightarrow> a' \<noteq> None" using processed_m by blast
  qed
  from run_events_non_stop [OF assms(1) pre_ok initial_state_simps(1), of pre env argv]
  obtain st1 where 1: "run_events env mgr argv (initial_state mgr) pre = Inr st1"
    and e1: "error st1 = 0" by blast
  define st3 where "st3 = st1\<lparr>out_stdout := out_stdout st1 @ [usage_text], error := - 1\<rparr>"
  have l: "options_loop env mgr argv (initial_state mgr) (initial_getopt argv) = Inr st3"
    using 1 e1
    by (simp add: options_loop_processed assms(2) run_events_append switch_body_help st3_def)
  define st where "st = report_region_result env argv (fallback_region env mgr st3)"
  have p: "parse_options env argv mgr = Inr st"
    unfolding st_def by (rule parse_options_loop [OF assms(1) l])
  have o: "out_stdout st = out_stdout st1 @ [usage_text]"
    by (simp add: st_def report_region_result_keeps fallback_region_def st3_def
        split: prod.split)
  have c: "calls st
      = calls st1 @ (if region_result st1 = - 1 then [CallFromAllMonitors] else [])"
    by (simp add: st_def report_region_result_keeps fallback_region_def st3_def
        split: prod.split)
  have "error (fallback_region env mgr st3) = - 1"
    by (simp add: fallback_region_def st3_def split: prod.split)
  then have e: "error st \<noteq> 0"
    by (simp add: st_def report_region_result_def)
  from main_parse_error [OF p e] 1 p o c e show ?thesis by blast
qed

theorem help_stops_processing_witness:
  "monitors two_monitors \<noteq> []
   \<and> processed [''shot'', ''-h'', ''-i''] = [] @ [(ord CHR ''h'', None)]
   \<and> (\<exists>st. parse_options env0 [''shot'', ''-h'', ''-i''] two_monitors = Inr st
          \<and> out_stdout st = [usage_text]
          \<and> calls st = [CallFromAllMonitors]
          \<and> main env0 (Some two_monitors) [''shot'', ''-h'', ''-i'']
              = Inr \<lparr>exit_code = 1, final_stdout = out_stdout st,
                     final_stderr = out_stderr st, final_calls = calls st,
                     grabbed = None\<rparr>)"
proof -
  have m: "monitors two_monitors \<noteq> []" by (simp add: two_monitors_def)
  have p: "processed [''shot'', ''-h'', ''-i''] = [] @ [(ord CHR ''h'', None)]" by code_simp
  from help_stops_processing [OF m p, of env0]
  obtain st1 st where
    1: "run_events env0 two_monitors [''shot'', ''-h'', ''-i''] (initial_state two_monitors) []
          = Inr st1"
    and 2: "parse_options env0 [''shot'', ''-h'', ''-i''] two_monitors = Inr st"
    and 3: "out_stdout st = out_stdout st1 @ [usage_text]"
    and 4: "calls st
        = calls st1 @ (if region_result st1 = - 1 then [CallFromAllMonitors] else [])"
    and 5: "main env0 (Some two_monitors) [''shot'', ''-h'', ''-i'']
              = Inr \<lparr>exit_code = 1, final_stdout = out_stdout st,
                     final_stderr = out_stderr st, final_calls = calls st,
                     grabbed = None\<rparr>"
    by blast
  from 1 have "st1 = initial_state two_monitors" by simp
  with 3 4 have "out_stdout st = [usage_text]" "calls st = [CallFromAllMonitors]"
    by (simp_all add: initial_state_simps)
  with 2 5 m p show ?thesis by blast
qed

theorem help_runs_resolvers_counterexample:
  "map_sum id calls (parse_options env0 [''shot'', ''-h''] two_monitors)
     = Inr [CallFromAllMonitors]
   \<and> map_sum id calls (parse_options env0 [''shot'', ''-i'', ''-h''] two_monitors)
       = Inr [CallFromAllMonitors,
              CallInteractively
                \<lparr>reg_x = 640, reg_y = 300, reg_width = 640, reg_height = 480\<rparr>
                \<lparr>reg_x = 0, reg_y = 0, reg_width = 3200, reg_height = 1080\<rparr>]"
  by code_simp

end
